theory Spec2Isabelle
  imports Main
begin

section \<open>Errors and formatting\<close>

text \<open>
  A Go \<open>error\<close> value, as far as the server looks at it: its text (\<open>Error()\<close>) and the
  chain that \<open>errors.As\<close> and \<open>errors.Is\<close> walk through \<open>Unwrap()\<close>.
  \<^item> \<open>TextprotoError code msg\<close> is a \<open>*textproto.Error{Code, Msg}\<close>;
  \<^item> \<open>Wrapped text inner\<close> is an error with its own text whose \<open>Unwrap()\<close> returns
    \<open>inner\<close> (what \<open>fmt.Errorf("...%w", inner)\<close> builds);
  \<^item> \<open>Plain text\<close> is an error without \<open>Unwrap\<close> (\<open>errors.New(text)\<close>).
\<close>

datatype go_error =
    TextprotoError int string
  | Wrapped string go_error
  | Plain string

text \<open>\<open>%d\<close> of \<open>fmt\<close>: decimal digits, a minus sign for a negative number.\<close>

definition digit_char :: "nat \<Rightarrow> char" where
  "digit_char d =
     (if d = 0 then CHR ''0'' else if d = 1 then CHR ''1'' else if d = 2 then CHR ''2''
      else if d = 3 then CHR ''3'' else if d = 4 then CHR ''4'' else if d = 5 then CHR ''5''
      else if d = 6 then CHR ''6'' else if d = 7 then CHR ''7'' else if d = 8 then CHR ''8''
      else CHR ''9'')"

fun digits :: "nat \<Rightarrow> string" where
  "digits n = (if n < 10 then [digit_char n] else digits (n div 10) @ [digit_char (n mod 10)])"

declare digits.simps [simp del]

definition fmt_d :: "int \<Rightarrow> string" where
  "fmt_d n = (if n < 0 then CHR ''-'' # digits (nat (- n)) else digits (nat n))"

text \<open>\<open>%03d\<close>: width 3, padded with zeros after the sign.\<close>

definition fmt_03d :: "int \<Rightarrow> string" where
  "fmt_03d n =
     (if n < 0
      then CHR ''-'' # replicate (2 - length (digits (nat (- n)))) CHR ''0'' @ digits (nat (- n))
      else replicate (3 - length (digits (nat n))) CHR ''0'' @ digits (nat n))"

text \<open>
  \<open>Error()\<close>. For \<open>*textproto.Error\<close> the standard library returns
  \<open>fmt.Sprintf("%03d %s", e.Code, e.Msg)\<close>.
\<close>

fun Error_text :: "go_error \<Rightarrow> string" where
  "Error_text (TextprotoError code msg) = fmt_03d code @ '' '' @ msg"
| "Error_text (Wrapped text inner) = text"
| "Error_text (Plain text) = text"

text \<open>
  \<open>errors.As(err, &smtpdError)\<close> with \<open>smtpdError\<close> of type \<open>*textproto.Error\<close>: the first
  error of the chain that is a \<open>*textproto.Error\<close>, if there is one.
\<close>

fun errors_As_textproto :: "go_error \<Rightarrow> (int \<times> string) option" where
  "errors_As_textproto (TextprotoError code msg) = Some (code, msg)"
| "errors_As_textproto (Wrapped text inner) = errors_As_textproto inner"
| "errors_As_textproto (Plain text) = None"

text \<open>\<open>errors.Is(err, target)\<close>: some error of the chain equals the target.\<close>

fun errors_Is :: "go_error \<Rightarrow> go_error \<Rightarrow> bool" where
  "errors_Is (Wrapped text inner) target =
     (Wrapped text inner = target \<or> errors_Is inner target)"
| "errors_Is err target = (err = target)"

definition ErrServerClosed :: go_error where
  "ErrServerClosed = Plain ''smtp: Server closed''"

section \<open>The XOAUTH2 client mechanism (internal/auth/xoauth2.go)\<close>

record xoauth2Auth =
  accessToken :: string
  host :: string

text \<open>\<open>smtp.ServerInfo\<close> of the standard library.\<close>

record ServerInfo =
  Name :: string
  TLS :: bool
  Auth :: "string list"

definition XOAuth2Auth :: "string \<Rightarrow> string \<Rightarrow> xoauth2Auth" where
  "XOAuth2Auth token h = \<lparr>accessToken = token, host = h\<rparr>"

text \<open>
  \<open>Start\<close> returns \<open>(string, []byte, error)\<close>; a nil byte slice is \<open>None\<close>, a nil error is
  \<open>None\<close>. The helper \<open>isLocalhost\<close> is declared in another file of the package, so it is
  a parameter here.
\<close>

definition Start ::
  "(string \<Rightarrow> bool) \<Rightarrow> xoauth2Auth \<Rightarrow> ServerInfo \<Rightarrow> string \<times> string option \<times> go_error option"
where
  "Start isLocalhost a server =
     (if \<not> ServerInfo.TLS server \<and> \<not> isLocalhost (Name server)
      then ('''', None, Some (Plain ''unencrypted connection''))
      else if Name server \<noteq> host a
      then ('''', None, Some (Plain ''wrong host name''))
      else (''XOAUTH2'', Some '''', None))"

definition Next :: "xoauth2Auth \<Rightarrow> string \<Rightarrow> bool \<Rightarrow> string option \<times> go_error option" where
  "Next a fromServer more_expected = (if more_expected then (Some (accessToken a), None) else (None, None))"

section \<open>Connections and the standard library's buffered I/O\<close>

definition CR :: char where "CR = CHR 0x0D"
definition LF :: char where "LF = CHR 0x0A"
definition CRLF :: string where "CRLF = [CR, LF]"

text \<open>\<open>tls.ConnectionState\<close>: the fields that tell one state from another here.\<close>

record ConnectionState =
  HandshakeComplete :: bool
  NegotiatedProtocol :: string

text \<open>
  A \<open>*tls.Conn\<close>: whether its handshake has run, and what running it gives (decided by
  the remote side): an error or the negotiated state.
\<close>

datatype handshake = NotRun | Complete ConnectionState | HandshakeFailed go_error

record tls_Conn =
  hs :: handshake
  hello :: "go_error + ConnectionState"

definition Handshake :: "tls_Conn \<Rightarrow> go_error option \<times> tls_Conn" where
  "Handshake t =
     (case hs t of
        NotRun \<Rightarrow>
          (case hello t of
             Inl e \<Rightarrow> (Some e, t\<lparr>hs := HandshakeFailed e\<rparr>)
           | Inr st \<Rightarrow> (None, t\<lparr>hs := Complete st\<rparr>))
      | Complete st \<Rightarrow> (None, t)
      | HandshakeFailed e \<Rightarrow> (Some e, t))"

definition tls_ConnectionState :: "tls_Conn \<Rightarrow> ConnectionState" where
  "tls_ConnectionState t =
     (case hs t of
        Complete st \<Rightarrow> st
      | _ \<Rightarrow> \<lparr>HandshakeComplete = False, NegotiatedProtocol = []\<rparr>)"

text \<open>
  A \<open>net.Conn\<close>. \<open>tls_layer\<close> is \<open>Some\<close> exactly when the dynamic type of the connection
  is \<open>*tls.Conn\<close>. \<open>incoming\<close> are the bytes that reads will still deliver (those that a
  \<open>bufio.Reader\<close> has already fetched included), \<open>in_end\<close> what a read returns once they
  are used up (\<open>None\<close> for \<open>io.EOF\<close>, else the error, a timeout for instance).
  \<open>sent\<close> are the bytes written to the connection. Deadlines are not modelled.
\<close>

record Conn =
  tls_layer :: "tls_Conn option"
  RemoteAddr :: string
  LocalAddr :: string
  incoming :: string
  in_end :: "go_error option"
  sent :: string
  closed :: bool

definition ErrNetClosing :: go_error where
  "ErrNetClosing = Plain ''use of closed network connection''"

text \<open>\<open>conn.Close()\<close>: later reads and writes fail.\<close>

definition Conn_Close :: "Conn \<Rightarrow> Conn" where
  "Conn_Close c = c\<lparr>closed := True, incoming := [], in_end := Some ErrNetClosing\<rparr>"

text \<open>
  \<open>bufio.Writer\<close>: the buffered bytes and whether a write has failed (the error is
  sticky: after it, nothing is buffered or written any more).
\<close>

record Writer =
  wbuf :: string
  werr :: bool

definition NewWriter :: Writer where
  "NewWriter = \<lparr>wbuf = [], werr = False\<rparr>"

text \<open>
  \<open>bufio.Scanner\<close> with the default split function \<open>ScanLines\<close> and the default limit:
  \<open>sbuf\<close> are the bytes taken from the reader and not yet returned in a token, \<open>serr\<close>
  the sticky error (\<open>io.EOF\<close> included), \<open>token\<close> the last token.
\<close>

record Scanner =
  sbuf :: string
  serr :: "go_error option"
  token :: string

definition NewScanner :: Scanner where
  "NewScanner = \<lparr>sbuf = [], serr = None, token = []\<rparr>"

definition MaxScanTokenSize :: nat where
  "MaxScanTokenSize = 64 * 1024"

definition io_EOF :: go_error where
  "io_EOF = Plain ''EOF''"

definition ErrTooLong :: go_error where
  "ErrTooLong = Plain ''bufio.Scanner: token too long''"

text \<open>\<open>Scanner.Err()\<close>: the first error that was not \<open>io.EOF\<close>.\<close>

definition Scanner_Err :: "Scanner \<Rightarrow> go_error option" where
  "Scanner_Err sc = (if serr sc = Some io_EOF then None else serr sc)"

definition line_of :: "string \<Rightarrow> string" where
  "line_of bs = takeWhile (\<lambda>b. b \<noteq> LF) bs"

definition after_line :: "string \<Rightarrow> string" where
  "after_line bs = drop 1 (dropWhile (\<lambda>b. b \<noteq> LF) bs)"

definition dropCR :: "string \<Rightarrow> string" where
  "dropCR bs = (if bs \<noteq> [] \<and> last bs = CR then butlast bs else bs)"

section \<open>Server, peer and session (package smtpd)\<close>

text \<open>
  Modelled from the spec: the \<open>Envelope\<close> struct is declared in a file that is not among
  the sources; the spec gives it a sender, the recipients in order and the data bytes.
\<close>

record Envelope =
  Sender :: string
  Recipients :: "string list"
  Data :: string

record Peer =
  Addr :: string
  TLS :: "ConnectionState option"
  HeloName :: string
  Username :: string
  Password :: string
  Protocol :: string
  ServerName :: string

text \<open>Only whether \<open>TLSConfig\<close> is nil matters to the server.\<close>

record tls_Config =
  cfg_ServerName :: string

text \<open>
  A \<open>chan struct{}\<close> on which nothing is ever sent: how often \<open>close\<close> has run on it
  (Go panics on the second \<open>close\<close> of a channel).
\<close>

record chan =
  close_ops :: nat

text \<open>
  The \<open>Server\<close> struct. Callbacks are \<open>None\<close> when nil; their context argument is left
  out. \<open>ConnContext\<close> says whether the context it returns is non-nil. \<open>listener\<close> is a
  pointer: the address of the once-closer that \<open>Serve\<close> allocated. \<open>waitgrp\<close> is the
  counter of the wait group. The mutex is not modelled: what runs under it is one step.
  The protocol logger and the tracer have no part in what the session does and are
  left out.
\<close>

record Server =
  Hostname :: string
  WelcomeMessage :: string
  ReadTimeout :: int
  WriteTimeout :: int
  DataTimeout :: int
  MaxConnections :: int
  MaxMessageSize :: int
  MaxRecipients :: int
  Handler :: "(Peer \<Rightarrow> Envelope \<Rightarrow> go_error option) option"
  ConnectionChecker :: "(Peer \<Rightarrow> go_error option) option"
  HeloChecker :: "(Peer \<Rightarrow> string \<Rightarrow> go_error option) option"
  SenderChecker :: "(Peer \<Rightarrow> string \<Rightarrow> go_error option) option"
  RecipientChecker :: "(Peer \<Rightarrow> string \<Rightarrow> go_error option) option"
  Authenticator :: "(Peer \<Rightarrow> string \<Rightarrow> string \<Rightarrow> go_error option) option"
  EnableXCLIENT :: bool
  EnableProxyProtocol :: bool
  TLSConfig :: "tls_Config option"
  ForceTLS :: bool
  ConnContext :: "(Conn \<Rightarrow> bool) option"
  doneChan :: "chan option"
  listener :: "nat option"
  waitgrp :: nat
  inShutdown :: bool

record session =
  server :: Server
  envelope :: "Envelope option"
  conn :: Conn
  writer :: Writer
  scanner :: Scanner
  peer :: Peer
  tls :: bool

text \<open>
  \<open>newSession\<close>. The type assertion \<open>c.(*tls.Conn)\<close> succeeds exactly on a
  \<open>*tls.Conn\<close>; the handshake's error is dropped.
\<close>

definition newSession :: "Server \<Rightarrow> Conn \<Rightarrow> session" where
  "newSession srv c =
     (let s = \<lparr>server = srv, envelope = None, conn = c, writer = NewWriter,
               scanner = NewScanner,
               peer = \<lparr>Addr = RemoteAddr c, TLS = None, HeloName = [], Username = [],
                       Password = [], Protocol = [], ServerName = Hostname srv\<rparr>,
               tls = False\<rparr>
      in case tls_layer c of
           Some tlsConn \<Rightarrow>
             (let tlsConn' = snd (Handshake tlsConn);
                  state = tls_ConnectionState tlsConn'
              in s\<lparr>tls := True,
                   conn := c\<lparr>tls_layer := Some tlsConn'\<rparr>,
                   peer := (peer s)\<lparr>TLS := Some state\<rparr>\<rparr>)
         | None \<Rightarrow> s)"

definition shuttingDown :: "Server \<Rightarrow> bool" where
  "shuttingDown srv = inShutdown srv"

text \<open>
  \<open>configureDefaults\<close>. \<open>log.Fatal\<close> ends the process: the result is \<open>None\<close>, and the
  fields after the fatal check are then never set. Durations are in nanoseconds.
\<close>

definition configureDefaults :: "Server \<Rightarrow> Server option" where
  "configureDefaults srv0 =
     (let srv1 = (if MaxMessageSize srv0 = 0 then srv0\<lparr>MaxMessageSize := 10240000\<rparr> else srv0);
          srv2 = (if MaxConnections srv1 = 0 then srv1\<lparr>MaxConnections := 100\<rparr> else srv1);
          srv3 = (if MaxRecipients srv2 = 0 then srv2\<lparr>MaxRecipients := 100\<rparr> else srv2);
          srv4 = (if ReadTimeout srv3 = 0 then srv3\<lparr>ReadTimeout := 1000000000 * 60\<rparr> else srv3);
          srv5 = (if WriteTimeout srv4 = 0 then srv4\<lparr>WriteTimeout := 1000000000 * 60\<rparr> else srv4);
          srv6 = (if DataTimeout srv5 = 0 then srv5\<lparr>DataTimeout := 60000000000 * 5\<rparr> else srv5)
      in if ForceTLS srv6 \<and> TLSConfig srv6 = None then None
         else
           (let srv7 = (if Hostname srv6 = [] then srv6\<lparr>Hostname := ''localhost.localdomain''\<rparr>
                        else srv6);
                srv8 = (if WelcomeMessage srv7 = []
                        then srv7\<lparr>WelcomeMessage := Hostname srv7 @ '' ESMTP ready.''\<rparr>
                        else srv7)
            in Some srv8))"

subsection \<open>Writing replies\<close>

text \<open>\<open>fmt.Fprintf(session.writer, ...)\<close> with the formatted text \<open>bs\<close>.\<close>

definition Fprintf :: "string \<Rightarrow> session \<Rightarrow> session" where
  "Fprintf bs s =
     (if werr (writer s) then s
      else s\<lparr>writer := (writer s)\<lparr>wbuf := wbuf (writer s) @ bs\<rparr>\<rparr>)"

text \<open>
  \<open>session.writer.Flush()\<close>: the buffered bytes go to the connection; on a closed
  connection the write fails and the writer keeps the error.
\<close>

definition Writer_Flush :: "session \<Rightarrow> session" where
  "Writer_Flush s =
     (if werr (writer s) \<or> wbuf (writer s) = [] then s
      else if closed (conn s) then s\<lparr>writer := (writer s)\<lparr>werr := True\<rparr>\<rparr>
      else s\<lparr>conn := (conn s)\<lparr>sent := sent (conn s) @ wbuf (writer s)\<rparr>,
             writer := (writer s)\<lparr>wbuf := []\<rparr>\<rparr>)"

definition flush :: "session \<Rightarrow> session" where
  "flush s = Writer_Flush s"

definition reply :: "int \<Rightarrow> string \<Rightarrow> session \<Rightarrow> session" where
  "reply code message s = flush (Fprintf (fmt_d code @ '' '' @ message @ CRLF) s)"

text \<open>\<open>session.error\<close>.\<close>

definition session_error :: "go_error \<Rightarrow> session \<Rightarrow> session" where
  "session_error err s =
     (case errors_As_textproto err of
        Some smtpdError \<Rightarrow> flush (Fprintf (Error_text err @ CRLF) s)
      | None \<Rightarrow> reply 502 (Error_text err) s)"

text \<open>\<open>session.close\<close> (the sleep is not modelled).\<close>

definition close :: "session \<Rightarrow> session" where
  "close s = (let s1 = Writer_Flush s in s1\<lparr>conn := Conn_Close (conn s1)\<rparr>)"

text \<open>
  Modelled from the spec: \<open>ErrBusy\<close> and \<open>ErrLineTooLong\<close> are declared in a file that is
  not among the sources. The spec names them as typed errors with the codes 421 and
  500; their message texts are parameters.
\<close>

definition ErrBusy :: "string \<Rightarrow> go_error" where
  "ErrBusy busy_msg = TextprotoError 421 busy_msg"

definition ErrLineTooLong :: "string \<Rightarrow> go_error" where
  "ErrLineTooLong long_msg = TextprotoError 500 long_msg"

definition reject :: "string \<Rightarrow> session \<Rightarrow> session" where
  "reject busy_msg s = close (session_error (ErrBusy busy_msg) s)"

definition reset :: "session \<Rightarrow> session" where
  "reset s = s\<lparr>envelope := None\<rparr>"

text \<open>\<open>session.welcome\<close>.\<close>

definition session_welcome :: "session \<Rightarrow> session" where
  "session_welcome s =
     (case ConnectionChecker (server s) of
        None \<Rightarrow> reply 220 (WelcomeMessage (server s)) s
      | Some checker \<Rightarrow>
          (case checker (peer s) of
             Some err \<Rightarrow> close (session_error err s)
           | None \<Rightarrow> reply 220 (WelcomeMessage (server s)) s))"

definition extensions :: "session \<Rightarrow> string list" where
  "extensions s =
     (let exts0 = [''SIZE '' @ fmt_d (MaxMessageSize (server s)), ''8BITMIME'', ''PIPELINING''];
          exts1 = (if EnableXCLIENT (server s) then exts0 @ [''XCLIENT''] else exts0);
          exts2 = (if TLSConfig (server s) \<noteq> None \<and> \<not> tls s then exts1 @ [''STARTTLS'']
                   else exts1);
          exts3 = (if Authenticator (server s) \<noteq> None \<and> tls s
                   then exts2 @ [''AUTH PLAIN LOGIN''] else exts2)
      in exts3)"

text \<open>
  \<open>session.deliver\<close>. With a handler set it dereferences \<open>session.envelope\<close>, which
  panics when the envelope is nil.
\<close>

datatype panic = NilPointerDereference

definition deliver :: "session \<Rightarrow> panic + go_error option" where
  "deliver s =
     (case Handler (server s) of
        Some h \<Rightarrow>
          (case envelope s of
             Some env \<Rightarrow> Inr (h (peer s) env)
           | None \<Rightarrow> Inl NilPointerDereference)
      | None \<Rightarrow> Inr None)"

subsection \<open>Reading lines\<close>

text \<open>
  \<open>Scanner.Scan()\<close> of the standard library, on the bytes the connection will deliver.
  In the library's order: a complete line among the bytes already held is returned
  first; with the sticky error set, what is left is returned as a last token and then
  nothing; otherwise the scanner reads on, until a newline comes within the
  \<open>MaxScanTokenSize\<close> bytes its buffer can hold (a token), or the buffer is full without
  one (\<open>ErrTooLong\<close>), or the input ends (the rest is the last token). How the bytes
  arrive in pieces does not change any of this, so the scanner is taken to read no
  further than the token it returns.
\<close>

definition Scan :: "session \<Rightarrow> bool \<times> session" where
  "Scan s =
     (let sc = scanner s; c = conn s; room = MaxScanTokenSize - length (sbuf sc) in
      if LF \<in> set (sbuf sc)
      then (True, s\<lparr>scanner := sc\<lparr>token := dropCR (line_of (sbuf sc)),
                                    sbuf := after_line (sbuf sc)\<rparr>\<rparr>)
      else if serr sc \<noteq> None
      then (if sbuf sc \<noteq> []
            then (True, s\<lparr>scanner := sc\<lparr>token := dropCR (sbuf sc), sbuf := []\<rparr>\<rparr>)
            else (False, s))
      else if LF \<in> set (take room (incoming c))
      then (True, s\<lparr>scanner := sc\<lparr>token := dropCR (sbuf sc @ line_of (incoming c)), sbuf := []\<rparr>,
                     conn := c\<lparr>incoming := after_line (incoming c)\<rparr>\<rparr>)
      else if room \<le> length (incoming c)
      then (False, s\<lparr>scanner := sc\<lparr>sbuf := sbuf sc @ take room (incoming c),
                                     serr := Some ErrTooLong\<rparr>,
                      conn := c\<lparr>incoming := drop room (incoming c)\<rparr>\<rparr>)
      else (let rest = sbuf sc @ incoming c;
                e = (case in_end c of None \<Rightarrow> io_EOF | Some read_err \<Rightarrow> read_err);
                s' = s\<lparr>conn := c\<lparr>incoming := []\<rparr>\<rparr>
            in if rest \<noteq> []
               then (True, s'\<lparr>scanner := sc\<lparr>token := dropCR rest, sbuf := [], serr := Some e\<rparr>\<rparr>)
               else (False, s'\<lparr>scanner := sc\<lparr>serr := Some e\<rparr>\<rparr>)))"

definition Text :: "session \<Rightarrow> string" where
  "Text s = token (scanner s)"

text \<open>
  \<open>session.reader.ReadString(delim)\<close>: the bytes up to and with the first \<open>delim\<close>, or
  all the bytes and the error that ended them.
\<close>

definition ReadString :: "char \<Rightarrow> session \<Rightarrow> (string \<times> go_error option) \<times> session" where
  "ReadString delim s =
     (let c = conn s; bs = incoming c in
      if delim \<in> set bs
      then ((takeWhile (\<lambda>b. b \<noteq> delim) bs @ [delim], None),
            s\<lparr>conn := c\<lparr>incoming := drop 1 (dropWhile (\<lambda>b. b \<noteq> delim) bs)\<rparr>\<rparr>)
      else ((bs, Some (case in_end c of None \<Rightarrow> io_EOF | Some read_err \<Rightarrow> read_err)),
            s\<lparr>conn := c\<lparr>incoming := []\<rparr>\<rparr>))"

subsection \<open>\<open>session.serve\<close>\<close>

text \<open>
  \<open>session.handle\<close> is in a file that is not among the sources; it is the parameter
  \<open>handle\<close>, any function from the line and the session to the session. Since nothing
  is known of it, the loops need not end: they are partial functions, \<open>None\<close> when
  they do not return.

  The inner loop \<open>for session.scanner.Scan() { ... }\<close>.
\<close>

partial_function (option) scan_commands ::
  "(string \<Rightarrow> session \<Rightarrow> session) \<Rightarrow> session \<Rightarrow> session option"
where
  "scan_commands handle s =
     (if fst (Scan s)
      then scan_commands handle (handle (Text (snd (Scan s))) (snd (Scan s)))
      else Some (snd (Scan s)))"

text \<open>The body of \<open>if errors.Is(err, bufio.ErrTooLong) { ... }\<close>.\<close>

definition line_too_long :: "string \<Rightarrow> session \<Rightarrow> session" where
  "line_too_long long_msg s =
     (let s1 = session_error (ErrLineTooLong long_msg) s;
          s2 = snd (ReadString LF s1);
          s3 = s2\<lparr>scanner := NewScanner\<rparr>
      in reset s3)"

definition scanner_too_long :: "session \<Rightarrow> bool" where
  "scanner_too_long s =
     (case Scanner_Err (scanner s) of
        None \<Rightarrow> False
      | Some err \<Rightarrow> errors_Is err ErrTooLong)"

text \<open>The outer loop.\<close>

partial_function (option) serve_loop ::
  "string \<Rightarrow> (string \<Rightarrow> session \<Rightarrow> session) \<Rightarrow> session \<Rightarrow> session option"
where
  "serve_loop long_msg handle s =
     Option.bind (scan_commands handle s)
       (\<lambda>s1. if scanner_too_long s1
             then serve_loop long_msg handle (line_too_long long_msg s1)
             else Some s1)"

text \<open>\<open>session.serve\<close>; \<open>cancelled\<close> says whether \<open>ctx.Err()\<close> is non-nil.\<close>

definition serve ::
  "string \<Rightarrow> string \<Rightarrow> (string \<Rightarrow> session \<Rightarrow> session) \<Rightarrow> bool \<Rightarrow> session \<Rightarrow> session option"
where
  "serve busy_msg long_msg handle cancelled s =
     (if cancelled then Some (close (reject busy_msg s))
      else
        (let s1 = (if \<not> EnableProxyProtocol (server s) then session_welcome s else s)
         in map_option close (serve_loop long_msg handle s1)))"

section \<open>The supervisor: \<open>Serve\<close>, \<open>Shutdown\<close>, \<open>Wait\<close>\<close>

text \<open>
  A \<open>net.Listener\<close> that a caller hands in: how often the server has called its
  \<open>Close\<close>, and what the n-th call returns (counted from 0).
\<close>

record raw_listener =
  close_calls :: nat
  close_result :: "nat \<Rightarrow> go_error option"

definition Listener_Close :: "raw_listener \<Rightarrow> go_error option \<times> raw_listener" where
  "Listener_Close ln = (close_result ln (close_calls ln), ln\<lparr>close_calls := Suc (close_calls ln)\<rparr>)"

record onceCloseListener =
  Listener :: raw_listener
  closeErr :: "go_error option"
  once :: bool

text \<open>\<open>oc.close()\<close>.\<close>

definition onceCloseListener_close :: "onceCloseListener \<Rightarrow> onceCloseListener" where
  "onceCloseListener_close ocl =
     (let r = Listener_Close (Listener ocl) in ocl\<lparr>Listener := snd r, closeErr := fst r\<rparr>)"

text \<open>\<open>oc.Close()\<close>: \<open>sync.Once\<close> runs \<open>oc.close\<close> on the first call only.\<close>

definition onceCloseListener_Close :: "onceCloseListener \<Rightarrow> go_error option \<times> onceCloseListener" where
  "onceCloseListener_Close ocl =
     (let ocl' = (if once ocl then ocl else (onceCloseListener_close ocl)\<lparr>once := True\<rparr>)
      in (closeErr ocl', ocl'))"

text \<open>
  The goroutine that \<open>Serve\<close> starts for an accepted connection, by the statement it
  is at: \<open>Spawned\<close> before the \<open>select\<close>, \<open>Serving\<close> inside \<open>session.serve\<close>, \<open>Releasing\<close>
  before \<open><-limiter\<close>, \<open>Finished\<close> after \<open>waitgrp.Done()\<close>.
\<close>

datatype pc = Spawned | Serving | Releasing | Finished

record task =
  pc :: pc
  sess :: session

datatype serve_exit = Returned go_error | Panicked

text \<open>
  One call of \<open>Serve\<close> that has passed its test of the in-shutdown flag: its local
  variables. \<open>oc\<close> is the once-closer it allocated (the variable \<open>l\<close>), \<open>limiter\<close> the
  capacity of the channel (\<open>None\<close> for the nil channel) and \<open>limiter_len\<close> the number of
  elements in it, \<open>tasks\<close> the goroutines it has started, \<open>ctx_err\<close> the state of its
  context, \<open>returned\<close> how the call has ended, if it has. \<open>entered\<close> says whether the
  call has executed \<open>srv.listener = &l\<close> and made its limiter, after which it is in its
  accept loop.
\<close>

record accept_loop =
  oc :: onceCloseListener
  limiter :: "nat option"
  limiter_len :: nat
  tasks :: "task list"
  ctx_err :: "go_error option"
  returned :: "serve_exit option"
  entered :: bool

text \<open>
  The server with the calls of \<open>Serve\<close> on it. The address of a once-closer is the
  index of its call in \<open>loops\<close>; \<open>listen_calls\<close> are the addresses that
  \<open>ListenAndServe\<close> has asked the network to listen on.
\<close>

record world =
  srv :: Server
  loops :: "accept_loop list"
  listen_calls :: "string list"

definition getDoneChanLocked :: "Server \<Rightarrow> chan \<times> Server" where
  "getDoneChanLocked sv =
     (case doneChan sv of
        None \<Rightarrow> (\<lparr>close_ops = 0\<rparr>, sv\<lparr>doneChan := Some \<lparr>close_ops = 0\<rparr>\<rparr>)
      | Some ch \<Rightarrow> (ch, sv))"

definition getDoneChan :: "Server \<Rightarrow> chan \<times> Server" where
  "getDoneChan sv = getDoneChanLocked sv"

text \<open>A receive from the channel succeeds exactly when it is closed.\<close>

definition closeDoneChanLocked :: "Server \<Rightarrow> Server" where
  "closeDoneChanLocked sv =
     (let r = getDoneChanLocked sv; ch = fst r; sv1 = snd r in
      if 0 < close_ops ch then sv1
      else sv1\<lparr>doneChan := Some (ch\<lparr>close_ops := Suc (close_ops ch)\<rparr>)\<rparr>)"

text \<open>
  A call that may block in \<open>waitgrp.Wait()\<close>: \<open>Returns v\<close> when it returns at once,
  \<open>Parked v\<close> when it blocks until the counter of the wait group is zero and returns
  \<open>v\<close> then.
\<close>

datatype 'a outcome = Returns 'a | Parked 'a

fun result_of :: "'a outcome \<Rightarrow> 'a" where
  "result_of (Returns v) = v"
| "result_of (Parked v) = v"

definition ErrNotShutdown :: go_error where
  "ErrNotShutdown = Plain ''Server has not been Shutdown''"

definition Wait :: "world \<Rightarrow> go_error option outcome" where
  "Wait w =
     (if \<not> shuttingDown (srv w) then Returns (Some ErrNotShutdown)
      else if waitgrp (srv w) = 0 then Returns None
      else Parked None)"

text \<open>\<open>Shutdown\<close>. The pointer \<open>srv.listener\<close> is always an address of \<open>loops\<close>.\<close>

definition Shutdown :: "bool \<Rightarrow> world \<Rightarrow> go_error option outcome \<times> world" where
  "Shutdown wait w =
     (let sv1 = (srv w)\<lparr>inShutdown := True\<rparr>;
          r = (case listener sv1 of
                 None \<Rightarrow> (None, loops w)
               | Some a \<Rightarrow>
                   (if a < length (loops w)
                    then (let c = onceCloseListener_Close (oc (loops w ! a))
                          in (fst c, (loops w)[a := (loops w ! a)\<lparr>oc := snd c\<rparr>]))
                    else (None, loops w)));
          lnerr = fst r;
          sv2 = closeDoneChanLocked sv1;
          w' = w\<lparr>srv := sv2, loops := snd r\<rparr>
      in if wait
         then (case Wait w' of Returns waited \<Rightarrow> (Returns lnerr, w') | Parked waited \<Rightarrow> (Parked lnerr, w'))
         else (Returns lnerr, w'))"

text \<open>
  \<open>Serve\<close> up to its accept loop. It returns at once (\<open>AtOnce\<close>), or the process ends
  in \<open>log.Fatal\<close> (\<open>ProcessExit\<close>), or it goes on (\<open>InLoop\<close> with the address of its
  once-closer). \<open>ctx\<close> is the state of the context it is called with. The goroutine
  that waits for the context and then calls \<open>Shutdown(true)\<close> is the event
  \<open>Ev_Cancel\<close> followed, when that goroutine runs, by \<open>Ev_Shutdown True\<close>.

  \<open>Serve\<close> tests the flag, and writes \<open>srv.listener\<close> later and without the mutex, so
  that other calls can run in between. \<open>Serve_begin\<close> is the call from the test up to
  \<open>defer l.Close()\<close>, \<open>Serve_assign\<close> the call from \<open>srv.listener = &l\<close> up to the
  loop, and \<open>Serve\<close> the two without anything in between. \<open>configureDefaults\<close>
  writes the same values whenever it runs, and changes nothing once it has run; it is
  taken to run with the test.
\<close>

datatype serve_outcome = AtOnce go_error | InLoop nat | ProcessExit

definition Serve_begin :: "raw_listener \<Rightarrow> go_error option \<Rightarrow> world \<Rightarrow> serve_outcome \<times> world" where
  "Serve_begin ln ctx w =
     (if shuttingDown (srv w) then (AtOnce ErrServerClosed, w)
      else
        (case configureDefaults (srv w) of
           None \<Rightarrow> (ProcessExit, w)
         | Some sv \<Rightarrow>
             (let a = length (loops w);
                  lp = \<lparr>oc = \<lparr>Listener = ln, closeErr = None, once = False\<rparr>,
                        limiter = None, limiter_len = 0, tasks = [], ctx_err = ctx,
                        returned = None, entered = False\<rparr>
              in (InLoop a, w\<lparr>srv := sv, loops := loops w @ [lp]\<rparr>))))"

definition Serve_assign :: "nat \<Rightarrow> world \<Rightarrow> world" where
  "Serve_assign a w =
     (let sv = (srv w)\<lparr>listener := Some a\<rparr>;
          lp = (loops w ! a)\<lparr>limiter := (if 0 < MaxConnections sv
                                          then Some (nat (MaxConnections sv)) else None),
                             entered := True\<rparr>
      in w\<lparr>srv := sv, loops := (loops w)[a := lp]\<rparr>)"

definition Serve :: "raw_listener \<Rightarrow> go_error option \<Rightarrow> world \<Rightarrow> serve_outcome \<times> world" where
  "Serve ln ctx w =
     (if shuttingDown (srv w) then (AtOnce ErrServerClosed, w)
      else
        (case configureDefaults (srv w) of
           None \<Rightarrow> (ProcessExit, w)
         | Some sv \<Rightarrow>
             (let a = length (loops w);
                  lp = \<lparr>oc = \<lparr>Listener = ln, closeErr = None, once = False\<rparr>,
                        limiter = (if 0 < MaxConnections sv then Some (nat (MaxConnections sv))
                                   else None),
                        limiter_len = 0, tasks = [], ctx_err = ctx, returned = None,
                        entered = True\<rparr>
              in (InLoop a, w\<lparr>srv := sv\<lparr>listener := Some a\<rparr>, loops := loops w @ [lp]\<rparr>))))"

text \<open>
  \<open>ListenAndServe\<close>; \<open>listened\<close> is what \<open>lc.Listen\<close> returns when it is called.
\<close>

definition ListenAndServe ::
  "string \<Rightarrow> go_error + raw_listener \<Rightarrow> go_error option \<Rightarrow> world \<Rightarrow> serve_outcome \<times> world"
where
  "ListenAndServe addr listened ctx w =
     (if shuttingDown (srv w) then (AtOnce ErrServerClosed, w)
      else
        (let w1 = w\<lparr>listen_calls := listen_calls w @ [addr]\<rparr> in
         case listened of
           Inl err \<Rightarrow> (AtOnce err, w1)
         | Inr ln \<Rightarrow> Serve ln ctx w1))"

text \<open>The return of call \<open>k\<close> of \<open>Serve\<close>: the deferred \<open>l.Close()\<close> runs.\<close>

definition Serve_return :: "nat \<Rightarrow> serve_exit \<Rightarrow> world \<Rightarrow> world" where
  "Serve_return k ex w =
     (let lp = loops w ! k
      in w\<lparr>loops := (loops w)[k := lp\<lparr>oc := snd (onceCloseListener_Close (oc lp)),
                                        returned := Some ex\<rparr>]\<rparr>)"

text \<open>
  The accept loop of call \<open>k\<close> when \<open>l.Accept()\<close> returns the connection \<open>c\<close>: the
  session is created, the wait group counts it, its goroutine is started.
\<close>

definition accept_conn :: "nat \<Rightarrow> Conn \<Rightarrow> world \<Rightarrow> world" where
  "accept_conn k c w =
     (if (case ConnContext (srv w) of None \<Rightarrow> False | Some cc \<Rightarrow> \<not> cc c)
      then Serve_return k Panicked w
      else
        (let lp = loops w ! k;
             session = newSession (srv w) c
         in w\<lparr>srv := (srv w)\<lparr>waitgrp := waitgrp (srv w) + 1\<rparr>,
              loops := (loops w)[k := lp\<lparr>tasks := tasks lp @ [\<lparr>pc = Spawned, sess = session\<rparr>]\<rparr>]\<rparr>))"

text \<open>
  The accept loop of call \<open>k\<close> when \<open>l.Accept()\<close> returns the error \<open>e\<close>. \<open>temporary\<close>
  is \<open>errors.As(e, &ne) && ne.Temporary()\<close>; \<open>pick_ctx\<close> is the choice of \<open>select\<close> when
  both channels are ready; \<open>cancel_in_wait\<close> is the context's error if the context is
  cancelled during the second the loop waits.
\<close>

definition accept_error ::
  "nat \<Rightarrow> go_error \<Rightarrow> bool \<Rightarrow> bool \<Rightarrow> go_error option \<Rightarrow> world \<Rightarrow> world"
where
  "accept_error k e temporary pick_ctx cancel_in_wait w =
     (let r = getDoneChan (srv w); ch = fst r; w1 = w\<lparr>srv := snd r\<rparr>; lp = loops w ! k in
      if 0 < close_ops ch \<and> (ctx_err lp = None \<or> \<not> pick_ctx)
      then Serve_return k (Returned ErrServerClosed) w1
      else
        (case ctx_err lp of
           Some ce \<Rightarrow> Serve_return k (Returned ce) w1
         | None \<Rightarrow>
             (if temporary
              then (case cancel_in_wait of
                      Some ce \<Rightarrow>
                        Serve_return k (Returned ce)
                          (w1\<lparr>loops := (loops w1)[k := lp\<lparr>ctx_err := Some ce\<rparr>]\<rparr>)
                    | None \<Rightarrow> w1)
              else Serve_return k (Returned e) w1)))"

text \<open>
  The next statement of goroutine \<open>i\<close> of call \<open>k\<close>. The send \<open>limiter <- struct{}{}\<close>
  can proceed exactly when the channel holds fewer elements than its capacity;
  otherwise the \<open>default\<close> branch runs. \<open>served\<close> is the session as \<open>session.serve\<close>
  leaves it. A receive from the empty channel would block.
\<close>

definition set_task :: "nat \<Rightarrow> nat \<Rightarrow> task \<Rightarrow> world \<Rightarrow> world" where
  "set_task k i t w =
     w\<lparr>loops := (loops w)[k := (loops w ! k)\<lparr>tasks := (tasks (loops w ! k))[i := t]\<rparr>]\<rparr>"

definition set_limiter_len :: "nat \<Rightarrow> nat \<Rightarrow> world \<Rightarrow> world" where
  "set_limiter_len k n w = w\<lparr>loops := (loops w)[k := (loops w ! k)\<lparr>limiter_len := n\<rparr>]\<rparr>"

definition waitgrp_Done :: "world \<Rightarrow> world" where
  "waitgrp_Done w = w\<lparr>srv := (srv w)\<lparr>waitgrp := waitgrp (srv w) - 1\<rparr>\<rparr>"

definition run_task :: "string \<Rightarrow> nat \<Rightarrow> nat \<Rightarrow> session \<Rightarrow> world \<Rightarrow> world" where
  "run_task busy_msg k i served w =
     (let lp = loops w ! k; t = tasks lp ! i in
      case pc t of
        Spawned \<Rightarrow>
          (case limiter lp of
             Some cap \<Rightarrow>
               (if limiter_len lp < cap
                then set_task k i (t\<lparr>pc := Serving\<rparr>) (set_limiter_len k (limiter_len lp + 1) w)
                else waitgrp_Done
                       (set_task k i \<lparr>pc = Finished, sess = reject busy_msg (sess t)\<rparr> w))
           | None \<Rightarrow> set_task k i (t\<lparr>pc := Serving\<rparr>) w)
      | Serving \<Rightarrow>
          (case limiter lp of
             Some cap \<Rightarrow> set_task k i \<lparr>pc = Releasing, sess = served\<rparr> w
           | None \<Rightarrow> waitgrp_Done (set_task k i \<lparr>pc = Finished, sess = served\<rparr> w))
      | Releasing \<Rightarrow>
          (if 0 < limiter_len lp
           then waitgrp_Done
                  (set_task k i (t\<lparr>pc := Finished\<rparr>) (set_limiter_len k (limiter_len lp - 1) w))
           else w)
      | Finished \<Rightarrow> w)"

text \<open>
  A listener on which the server has not called \<open>Close\<close> yet; \<open>closes n\<close> is what
  its \<open>Close\<close> returns at call \<open>n\<close>.
\<close>

definition new_listener :: "(nat \<Rightarrow> go_error option) \<Rightarrow> raw_listener" where
  "new_listener closes = \<lparr>close_calls = 0, close_result = closes\<rparr>"

text \<open>
  What can happen to the server: calls of its methods from outside, the steps of the
  accept loops and of their goroutines, the cancellation of a context. Events that
  cannot happen in the state (an address that is not there, a loop that has returned)
  leave it as it is. A listener is handed to \<open>Serve\<close> before the server has called
  anything on it. \<open>log.Fatal\<close> ends the process, after which nothing happens: every
  history of the program is a history here.

  A call of \<open>Serve\<close> is the event \<open>Ev_Serve\<close> when nothing happens between its test of
  the flag and its loop, and otherwise the event \<open>Ev_ServeBegin\<close>, by which the call
  gets the address \<open>a\<close> of its once-closer, followed at any later time by
  \<open>Ev_ServeAssign a\<close>. Likewise a call of \<open>ListenAndServe\<close> is \<open>Ev_ListenAndServe\<close>, or
  \<open>Ev_Listen\<close> (the call up to the return of \<open>lc.Listen\<close>) followed by the events of
  its call of \<open>Serve\<close>. The critical section of \<open>Shutdown\<close> is under \<open>srv.mu\<close>, and
  \<open>Ev_Shutdown\<close> is the call from the store to the flag up to its wait.
\<close>

datatype event =
    Ev_Serve "nat \<Rightarrow> go_error option" "go_error option"
  | Ev_ServeBegin "nat \<Rightarrow> go_error option" "go_error option"
  | Ev_ServeAssign nat
  | Ev_ListenAndServe string "go_error + (nat \<Rightarrow> go_error option)" "go_error option"
  | Ev_Listen string
  | Ev_Accept nat Conn
  | Ev_AcceptError nat go_error bool bool "go_error option"
  | Ev_Run nat nat session
  | Ev_Cancel nat go_error
  | Ev_Shutdown bool
  | Ev_Wait

definition accepting :: "nat \<Rightarrow> world \<Rightarrow> bool" where
  "accepting k w =
     (k < length (loops w) \<and> entered (loops w ! k) \<and> returned (loops w ! k) = None)"

fun step :: "string \<Rightarrow> event \<Rightarrow> world \<Rightarrow> world" where
  "step busy_msg (Ev_Serve closes ctx) w = snd (Serve (new_listener closes) ctx w)"
| "step busy_msg (Ev_ServeBegin closes ctx) w = snd (Serve_begin (new_listener closes) ctx w)"
| "step busy_msg (Ev_ServeAssign a) w =
     (if a < length (loops w) \<and> \<not> entered (loops w ! a) then Serve_assign a w else w)"
| "step busy_msg (Ev_ListenAndServe addr listened ctx) w =
     snd (ListenAndServe addr (map_sum id new_listener listened) ctx w)"
| "step busy_msg (Ev_Listen addr) w =
     (if shuttingDown (srv w) then w else w\<lparr>listen_calls := listen_calls w @ [addr]\<rparr>)"
| "step busy_msg (Ev_Accept k c) w = (if accepting k w then accept_conn k c w else w)"
| "step busy_msg (Ev_AcceptError k e temporary pick_ctx cancel_in_wait) w =
     (if accepting k w then accept_error k e temporary pick_ctx cancel_in_wait w else w)"
| "step busy_msg (Ev_Run k i served) w =
     (if k < length (loops w) \<and> i < length (tasks (loops w ! k))
      then run_task busy_msg k i served w else w)"
| "step busy_msg (Ev_Cancel k ce) w =
     (if k < length (loops w) \<and> ctx_err (loops w ! k) = None
      then w\<lparr>loops := (loops w)[k := (loops w ! k)\<lparr>ctx_err := Some ce\<rparr>]\<rparr>
      else w)"
| "step busy_msg (Ev_Shutdown wait) w = snd (Shutdown wait w)"
| "step busy_msg Ev_Wait w = w"

fun run :: "string \<Rightarrow> event list \<Rightarrow> world \<Rightarrow> world" where
  "run busy_msg [] w = w"
| "run busy_msg (ev # evs) w = run busy_msg evs (step busy_msg ev w)"

text \<open>A server on which no method has run yet: its unexported fields are zero.\<close>

definition new_world :: "Server \<Rightarrow> world" where
  "new_world sv =
     \<lparr>srv = sv\<lparr>doneChan := None, listener := None, waitgrp := 0, inShutdown := False\<rparr>,
      loops = [], listen_calls = []\<rparr>"

text \<open>The number of goroutines of a call that are inside \<open>session.serve\<close>.\<close>

definition serving :: "accept_loop \<Rightarrow> nat" where
  "serving lp = length (filter (\<lambda>t. pc t = Serving) (tasks lp))"

definition holding :: "accept_loop \<Rightarrow> nat" where
  "holding lp = length (filter (\<lambda>t. pc t = Serving \<or> pc t = Releasing) (tasks lp))"

definition unfinished :: "accept_loop \<Rightarrow> nat" where
  "unfinished lp = length (filter (\<lambda>t. pc t \<noteq> Finished) (tasks lp))"

section \<open>Fixtures\<close>

text \<open>
  The server of the repository's test (\<open>startTestSMTPServer\<close>): the checkers and the
  handler accept everything, every other field is zero.
\<close>

definition test_Server :: Server where
  "test_Server =
     \<lparr>Hostname = [], WelcomeMessage = [], ReadTimeout = 0, WriteTimeout = 0, DataTimeout = 0,
      MaxConnections = 0, MaxMessageSize = 0, MaxRecipients = 0,
      Handler = Some (\<lambda>p env. None),
      ConnectionChecker = Some (\<lambda>p. None),
      HeloChecker = Some (\<lambda>p name. None),
      SenderChecker = Some (\<lambda>p addr. None),
      RecipientChecker = Some (\<lambda>p addr. None),
      Authenticator = None,
      EnableXCLIENT = False, EnableProxyProtocol = False,
      TLSConfig = None, ForceTLS = False, ConnContext = None,
      doneChan = None, listener = None, waitgrp = 0, inShutdown = False\<rparr>"

text \<open>An open TCP connection from the given address with the given bytes to come.\<close>

definition tcp_conn :: "string \<Rightarrow> string \<Rightarrow> Conn" where
  "tcp_conn remote bs =
     \<lparr>tls_layer = None, RemoteAddr = remote, LocalAddr = ''127.0.0.1:25'', incoming = bs,
      in_end = None, sent = [], closed = False\<rparr>"

text \<open>A listener whose \<open>Close\<close> always returns the given value.\<close>

definition listener_closing_with :: "go_error option \<Rightarrow> raw_listener" where
  "listener_closing_with r = new_listener (\<lambda>n. r)"

text \<open>
  A line of as many bytes as the scanner's buffer holds, a stand-in for
  \<open>session.handle\<close> that answers every line with 250 and the line, and a session with
  a message in progress whose peer sends the overlong line and then a command.
\<close>

definition overlong_line :: string where
  "overlong_line = replicate MaxScanTokenSize (CHR ''a'')"

definition echo :: "string \<Rightarrow> session \<Rightarrow> session" where
  "echo line s = reply 250 line s"

definition mail_session :: session where
  "mail_session =
     (newSession test_Server (tcp_conn ''192.0.2.7:40000'' (overlong_line @ LF # ''NOOP'' @ CRLF)))
       \<lparr>envelope := Some \<lparr>Sender = ''a@x'', Recipients = [''b@y''], Data = []\<rparr>\<rparr>"

section \<open>Invariants of the supervisor\<close>

text \<open>
  What the proofs below need: which events are calls of \<open>Shutdown\<close>, the number of
  goroutines that have not finished, the effect of one statement of a goroutine on
  the wait group, on the limiter and on the goroutine itself, and the invariants:
  the wait group counts the unfinished goroutines (\<open>wg_inv\<close>); every once-closer has
  called the \<open>Close\<close> of its listener once if its \<open>once\<close> is done and never otherwise,
  \<open>srv.listener\<close> points to a once-closer, and the done channel has been closed at
  most once (\<open>once_inv\<close>); a once-closer that is done and a done channel that is closed
  stay as they are (\<open>shut\<close>); after \<open>Shutdown\<close>, with no call of \<open>Serve\<close> between its
  test and its assignment, \<open>srv.listener\<close> stays as it is (\<open>settled\<close>).
\<close>

fun is_Shutdown :: "event \<Rightarrow> bool" where
  "is_Shutdown (Ev_Shutdown wait) = True"
| "is_Shutdown ev = False"

definition pending :: "world \<Rightarrow> nat" where
  "pending w = sum_list (map unfinished (loops w))"

definition task_effect :: "string \<Rightarrow> accept_loop \<Rightarrow> nat \<Rightarrow> session \<Rightarrow> nat \<times> nat \<times> task" where
  "task_effect bm lp i served =
     (let t = tasks lp ! i in
      case pc t of
        Spawned \<Rightarrow>
          (case limiter lp of
             Some cap \<Rightarrow>
               (if limiter_len lp < cap then (0, limiter_len lp + 1, t\<lparr>pc := Serving\<rparr>)
                else (1, limiter_len lp, \<lparr>pc = Finished, sess = reject bm (sess t)\<rparr>))
           | None \<Rightarrow> (0, limiter_len lp, t\<lparr>pc := Serving\<rparr>))
      | Serving \<Rightarrow>
          (case limiter lp of
             Some cap \<Rightarrow> (0, limiter_len lp, \<lparr>pc = Releasing, sess = served\<rparr>)
           | None \<Rightarrow> (1, limiter_len lp, \<lparr>pc = Finished, sess = served\<rparr>))
      | Releasing \<Rightarrow>
          (if 0 < limiter_len lp then (1, limiter_len lp - 1, t\<lparr>pc := Finished\<rparr>)
           else (0, limiter_len lp, t))
      | Finished \<Rightarrow> (0, limiter_len lp, t))"

definition wg_inv :: "world \<Rightarrow> bool" where
  "wg_inv w = (waitgrp (srv w) = pending w)"

definition oc_step :: "onceCloseListener \<Rightarrow> onceCloseListener \<Rightarrow> bool" where
  "oc_step x y = (y = x \<or> y = snd (onceCloseListener_Close x))"





text \<open>Two states of a call of \<open>Serve\<close> that differ in nothing the limiter depends on.\<close>

definition same_limit :: "accept_loop \<Rightarrow> accept_loop \<Rightarrow> bool" where
  "same_limit lp lp' =
     (limiter lp' = limiter lp \<and> limiter_len lp' = limiter_len lp \<and> tasks lp' = tasks lp
      \<and> entered lp' = entered lp)"

text \<open>
  The account of the limiter of a call: a call that has made its limiter has one of
  capacity \<open>n\<close>, a call that has not has started no goroutine; the limiter holds one
  element for each goroutine that is inside \<open>session.serve\<close> or about to give its slot
  back; a goroutine that has not run yet has a session that has written nothing.
\<close>

definition cap_ok :: "nat \<Rightarrow> accept_loop \<Rightarrow> bool" where
  "cap_ok n lp =
     (limiter lp = (if entered lp then Some n else None)
      \<and> (\<not> entered lp \<longrightarrow> tasks lp = [])
      \<and> holding lp = limiter_len lp \<and> limiter_len lp \<le> n
      \<and> (\<forall>t\<in>set (tasks lp). pc t = Spawned \<longrightarrow> writer (sess t) = NewWriter))"

definition cap_inv :: "nat \<Rightarrow> world \<Rightarrow> bool" where
  "cap_inv n w =
     (MaxConnections (srv w) = int n
      \<and> (\<forall>k. k < length (loops w) \<longrightarrow> cap_ok n (loops w ! k)))"

section \<open>Theorems\<close>

subsection \<open>XOAUTH2\<close>

text \<open>
  C10. \<open>Start\<close> fails, with an empty mechanism name and no initial response, whenever the
  connection is not TLS and the server name is not a localhost name, and whenever the
  server name differs from the configured host; in every other case it returns the
  mechanism \<open>XOAUTH2\<close> with an empty initial response. So the access token is in no
  result of \<open>Start\<close>.
\<close>

theorem C10_xoauth2_start:
  "(\<not> ServerInfo.TLS info \<and> \<not> isLocalhost (Name info) \<longrightarrow>
      Start isLocalhost a info = ([], None, Some (Plain ''unencrypted connection'')))
   \<and> (Name info \<noteq> host a \<longrightarrow>
      (\<exists>err. Start isLocalhost a info = ([], None, Some err)))
   \<and> (\<not> (\<not> ServerInfo.TLS info \<and> \<not> isLocalhost (Name info)) \<and> Name info = host a \<longrightarrow>
      Start isLocalhost a info = (''XOAUTH2'', Some [], None))"
  by (auto simp: Start_def)

theorem C10_xoauth2_start_witness:
  "Start (\<lambda>n. n = ''localhost'') \<lparr>accessToken = ''secret'', host = ''mail.example.org''\<rparr>
     \<lparr>Name = ''mail.example.org'', TLS = False, Auth = []\<rparr>
     = ([], None, Some (Plain ''unencrypted connection''))
   \<and> (\<exists>err. Start (\<lambda>n. n = ''localhost'') \<lparr>accessToken = ''secret'', host = ''mail.example.org''\<rparr>
     \<lparr>Name = ''evil.example.org'', TLS = True, Auth = []\<rparr> = ([], None, Some err))
   \<and> Start (\<lambda>n. n = ''localhost'') \<lparr>accessToken = ''secret'', host = ''mail.example.org''\<rparr>
     \<lparr>Name = ''mail.example.org'', TLS = True, Auth = []\<rparr>
     = (''XOAUTH2'', Some [], None)"
  using
    C10_xoauth2_start [of "\<lparr>Name = ''mail.example.org'', TLS = False, Auth = []\<rparr>"
      "\<lambda>n. n = ''localhost''" "\<lparr>accessToken = ''secret'', host = ''mail.example.org''\<rparr>"]
    C10_xoauth2_start [of "\<lparr>Name = ''evil.example.org'', TLS = True, Auth = []\<rparr>"
      "\<lambda>n. n = ''localhost''" "\<lparr>accessToken = ''secret'', host = ''mail.example.org''\<rparr>"]
    C10_xoauth2_start [of "\<lparr>Name = ''mail.example.org'', TLS = True, Auth = []\<rparr>"
      "\<lambda>n. n = ''localhost''" "\<lparr>accessToken = ''secret'', host = ''mail.example.org''\<rparr>"]
  by simp

subsection \<open>The defaults in closed form\<close>

text \<open>Each conditional assignment of \<open>configureDefaults\<close> as one update.\<close>

lemma upd_MaxMessageSize:
  "(if MaxMessageSize r = 0 then r\<lparr>MaxMessageSize := d\<rparr> else r)
   = r\<lparr>MaxMessageSize := (if MaxMessageSize r = 0 then d else MaxMessageSize r)\<rparr>"
  by simp

lemma upd_MaxConnections:
  "(if MaxConnections r = 0 then r\<lparr>MaxConnections := d\<rparr> else r)
   = r\<lparr>MaxConnections := (if MaxConnections r = 0 then d else MaxConnections r)\<rparr>"
  by simp

lemma upd_MaxRecipients:
  "(if MaxRecipients r = 0 then r\<lparr>MaxRecipients := d\<rparr> else r)
   = r\<lparr>MaxRecipients := (if MaxRecipients r = 0 then d else MaxRecipients r)\<rparr>"
  by simp

lemma upd_ReadTimeout:
  "(if ReadTimeout r = 0 then r\<lparr>ReadTimeout := d\<rparr> else r)
   = r\<lparr>ReadTimeout := (if ReadTimeout r = 0 then d else ReadTimeout r)\<rparr>"
  by simp

lemma upd_WriteTimeout:
  "(if WriteTimeout r = 0 then r\<lparr>WriteTimeout := d\<rparr> else r)
   = r\<lparr>WriteTimeout := (if WriteTimeout r = 0 then d else WriteTimeout r)\<rparr>"
  by simp

lemma upd_DataTimeout:
  "(if DataTimeout r = 0 then r\<lparr>DataTimeout := d\<rparr> else r)
   = r\<lparr>DataTimeout := (if DataTimeout r = 0 then d else DataTimeout r)\<rparr>"
  by simp

lemma upd_Hostname:
  "(if Hostname r = [] then r\<lparr>Hostname := d\<rparr> else r)
   = r\<lparr>Hostname := (if Hostname r = [] then d else Hostname r)\<rparr>"
  by simp

lemma upd_WelcomeMessage:
  "(if WelcomeMessage r = [] then r\<lparr>WelcomeMessage := d\<rparr> else r)
   = r\<lparr>WelcomeMessage := (if WelcomeMessage r = [] then d else WelcomeMessage r)\<rparr>"
  by simp

lemmas upd_defaults = upd_MaxMessageSize upd_MaxConnections upd_MaxRecipients upd_ReadTimeout
  upd_WriteTimeout upd_DataTimeout upd_Hostname upd_WelcomeMessage

lemma configureDefaults_eq:
  "configureDefaults sv =
     (if ForceTLS sv \<and> TLSConfig sv = None then None
      else Some (sv\<lparr>
        MaxMessageSize := (if MaxMessageSize sv = 0 then 10240000 else MaxMessageSize sv),
        MaxConnections := (if MaxConnections sv = 0 then 100 else MaxConnections sv),
        MaxRecipients := (if MaxRecipients sv = 0 then 100 else MaxRecipients sv),
        ReadTimeout := (if ReadTimeout sv = 0 then 60000000000 else ReadTimeout sv),
        WriteTimeout := (if WriteTimeout sv = 0 then 60000000000 else WriteTimeout sv),
        DataTimeout := (if DataTimeout sv = 0 then 300000000000 else DataTimeout sv),
        Hostname := (if Hostname sv = [] then ''localhost.localdomain'' else Hostname sv),
        WelcomeMessage :=
          (if WelcomeMessage sv = []
           then (if Hostname sv = [] then ''localhost.localdomain'' else Hostname sv) @ '' ESMTP ready.''
           else WelcomeMessage sv)\<rparr>))"
  unfolding configureDefaults_def upd_defaults Let_def
  by simp


lemma configureDefaults_None: "(configureDefaults sv = None) = (ForceTLS sv \<and> TLSConfig sv = None)"
  by (simp add: configureDefaults_eq)

lemma configureDefaults_private:
  "map_option (\<lambda>r. (inShutdown r, listener r, waitgrp r, doneChan r, ConnContext r))
     (configureDefaults sv)
   = (if ForceTLS sv \<and> TLSConfig sv = None then None
      else Some (inShutdown sv, listener sv, waitgrp sv, doneChan sv, ConnContext sv))"
  by (simp add: configureDefaults_eq)

lemma configureDefaults_limit:
  "map_option MaxConnections (configureDefaults sv)
   = (if ForceTLS sv \<and> TLSConfig sv = None then None
      else Some (if MaxConnections sv = 0 then 100 else MaxConnections sv))"
  by (simp add: configureDefaults_eq)

lemma configureDefaults_fields:
  assumes "configureDefaults sv = Some sv'"
  shows "MaxConnections sv' = (if MaxConnections sv = 0 then 100 else MaxConnections sv)"
    and "inShutdown sv' = inShutdown sv"
    and "listener sv' = listener sv"
    and "waitgrp sv' = waitgrp sv"
    and "doneChan sv' = doneChan sv"
    and "ConnContext sv' = ConnContext sv"
  using assms configureDefaults_limit [of sv] configureDefaults_private [of sv]
  by (simp_all split: if_split_asm)

text \<open>
  Once \<open>configureDefaults\<close> has run, running it again changes nothing: where in a
  call of \<open>Serve\<close> it runs makes no difference to the calls that come after the first.
\<close>

lemma configureDefaults_idem:
  assumes "configureDefaults sv = Some sv'"
  shows "configureDefaults sv' = Some sv'"
proof -
  from assms have tls: "\<not> (ForceTLS sv \<and> TLSConfig sv = None)"
    by (simp add: configureDefaults_eq split: if_split_asm)
  with assms have sv': "sv' = sv\<lparr>
        MaxMessageSize := (if MaxMessageSize sv = 0 then 10240000 else MaxMessageSize sv),
        MaxConnections := (if MaxConnections sv = 0 then 100 else MaxConnections sv),
        MaxRecipients := (if MaxRecipients sv = 0 then 100 else MaxRecipients sv),
        ReadTimeout := (if ReadTimeout sv = 0 then 60000000000 else ReadTimeout sv),
        WriteTimeout := (if WriteTimeout sv = 0 then 60000000000 else WriteTimeout sv),
        DataTimeout := (if DataTimeout sv = 0 then 300000000000 else DataTimeout sv),
        Hostname := (if Hostname sv = [] then ''localhost.localdomain'' else Hostname sv),
        WelcomeMessage :=
          (if WelcomeMessage sv = []
           then (if Hostname sv = [] then ''localhost.localdomain'' else Hostname sv) @ '' ESMTP ready.''
           else WelcomeMessage sv)\<rparr>"
    by (simp only: configureDefaults_eq if_False option.inject)
  have nz: "MaxMessageSize sv' \<noteq> 0" "MaxConnections sv' \<noteq> 0" "MaxRecipients sv' \<noteq> 0"
    "ReadTimeout sv' \<noteq> 0" "WriteTimeout sv' \<noteq> 0" "DataTimeout sv' \<noteq> 0"
    "Hostname sv' \<noteq> []" "WelcomeMessage sv' \<noteq> []"
    "ForceTLS sv' = ForceTLS sv" "TLSConfig sv' = TLSConfig sv"
    unfolding sv' by simp_all
  with tls show ?thesis
    by (simp add: configureDefaults_eq)
qed
subsection \<open>Formatting\<close>

lemma fmt_d_502: "fmt_d 502 = ''502''"
  by (simp add: fmt_d_def digits.simps digit_char_def)

lemma fmt_d_220: "fmt_d 220 = ''220''"
  by (simp add: fmt_d_def digits.simps digit_char_def)

lemma fmt_03d_421: "fmt_03d 421 = ''421''"
  by (simp add: fmt_03d_def digits.simps digit_char_def)

lemma fmt_03d_500: "fmt_03d 500 = ''500''"
  by (simp add: fmt_03d_def digits.simps digit_char_def)

lemma fmt_03d_550: "fmt_03d 550 = ''550''"
  by (simp add: fmt_03d_def digits.simps digit_char_def)

subsection \<open>The error reply\<close>

text \<open>
  What \<open>session.error\<close> does on an error that is itself a \<open>*textproto.Error\<close>, and on
  an error with no \<open>*textproto.Error\<close> in its chain.
\<close>

lemma session_error_typed:
  "session_error (TextprotoError code msg) s =
     flush (Fprintf (fmt_03d code @ '' '' @ msg @ CRLF) s)"
  by (simp add: session_error_def)

lemma session_error_untyped:
  "errors_As_textproto err = None \<Longrightarrow>
   session_error err s = flush (Fprintf (''502 '' @ Error_text err @ CRLF) s)"
  by (simp add: session_error_def reply_def fmt_d_502)

lemma flush_Fprintf_fresh:
  "writer s = NewWriter \<Longrightarrow> \<not> closed (conn s) \<Longrightarrow> bs \<noteq> [] \<Longrightarrow>
   flush (Fprintf bs s) = s\<lparr>conn := (conn s)\<lparr>sent := sent (conn s) @ bs\<rparr>\<rparr>"
  by (simp add: flush_def Writer_Flush_def Fprintf_def NewWriter_def)

text \<open>
  C2. At an error that wraps a \<open>*textproto.Error\<close> (for instance
  \<open>fmt.Errorf("rejected: %w", &textproto.Error{Code: 550, Msg: "mailbox unavailable"})\<close>
  returned by a checker), \<open>errors.As\<close> finds the typed error, and the line written is the
  text of the wrapping error: it is neither the code and message of the typed error nor
  a 502 reply with the error's text.
\<close>

theorem C2_error_reply_wrapped:
  "errors_As_textproto
     (Wrapped ''rejected: 550 mailbox unavailable'' (TextprotoError 550 ''mailbox unavailable''))
     = Some (550, ''mailbox unavailable'')
   \<and> sent (conn (session_error
        (Wrapped ''rejected: 550 mailbox unavailable'' (TextprotoError 550 ''mailbox unavailable''))
        (newSession test_Server (tcp_conn ''192.0.2.7:40000'' []))))
     = ''rejected: 550 mailbox unavailable'' @ CRLF
   \<and> ''rejected: 550 mailbox unavailable'' @ CRLF \<noteq> ''550 mailbox unavailable'' @ CRLF
   \<and> ''rejected: 550 mailbox unavailable'' @ CRLF
       \<noteq> ''502 rejected: 550 mailbox unavailable'' @ CRLF"
  by (simp add: session_error_def flush_def Writer_Flush_def Fprintf_def newSession_def
      tcp_conn_def NewWriter_def CRLF_def)

subsection \<open>The EHLO extensions\<close>

text \<open>
  C5. The extension list always holds \<open>SIZE\<close> with the maximal message size in decimal,
  \<open>8BITMIME\<close> and \<open>PIPELINING\<close>; it holds \<open>STARTTLS\<close> exactly when a TLS configuration is
  set and the session is not on TLS, \<open>AUTH PLAIN LOGIN\<close> exactly when an authenticator is
  configured and the session is on TLS, and \<open>XCLIENT\<close> exactly when XCLIENT is enabled.
\<close>

theorem C5_extensions:
  "''SIZE '' @ fmt_d (MaxMessageSize (server s)) \<in> set (extensions s)
   \<and> ''8BITMIME'' \<in> set (extensions s)
   \<and> ''PIPELINING'' \<in> set (extensions s)
   \<and> (''STARTTLS'' \<in> set (extensions s) \<longleftrightarrow> TLSConfig (server s) \<noteq> None \<and> \<not> tls s)
   \<and> (''AUTH PLAIN LOGIN'' \<in> set (extensions s)
        \<longleftrightarrow> Authenticator (server s) \<noteq> None \<and> tls s)
   \<and> (''XCLIENT'' \<in> set (extensions s) \<longleftrightarrow> EnableXCLIENT (server s))"
  by (auto simp: extensions_def Let_def)

theorem C5_extensions_witness:
  "''SIZE 10240000'' \<in> set (extensions (newSession
       (test_Server\<lparr>MaxMessageSize := 10240000, TLSConfig := Some \<lparr>cfg_ServerName = ''mx''\<rparr>\<rparr>)
       (tcp_conn ''192.0.2.7:40000'' [])))
   \<and> ''STARTTLS'' \<in> set (extensions (newSession
       (test_Server\<lparr>MaxMessageSize := 10240000, TLSConfig := Some \<lparr>cfg_ServerName = ''mx''\<rparr>\<rparr>)
       (tcp_conn ''192.0.2.7:40000'' [])))
   \<and> ''AUTH PLAIN LOGIN'' \<notin> set (extensions (newSession
       (test_Server\<lparr>MaxMessageSize := 10240000, TLSConfig := Some \<lparr>cfg_ServerName = ''mx''\<rparr>\<rparr>)
       (tcp_conn ''192.0.2.7:40000'' [])))
   \<and> ''XCLIENT'' \<notin> set (extensions (newSession
       (test_Server\<lparr>MaxMessageSize := 10240000, TLSConfig := Some \<lparr>cfg_ServerName = ''mx''\<rparr>\<rparr>)
       (tcp_conn ''192.0.2.7:40000'' [])))"
  using C5_extensions [of "newSession
       (test_Server\<lparr>MaxMessageSize := 10240000, TLSConfig := Some \<lparr>cfg_ServerName = ''mx''\<rparr>\<rparr>)
       (tcp_conn ''192.0.2.7:40000'' [])"]
  by (simp add: newSession_def tcp_conn_def test_Server_def fmt_d_def digits.simps digit_char_def)

subsection \<open>New sessions\<close>

text \<open>
  C9. The session that \<open>newSession\<close> creates for a connection that is a \<open>*tls.Conn\<close> has
  its TLS flag set and \<open>Peer.TLS\<close> holding the connection state read after the handshake
  was run; for any other connection the flag is false and \<open>Peer.TLS\<close> is nil. No input
  has been read at that point: the scanner is new and the connection's pending bytes
  are all there.
\<close>

theorem C9_newSession_tls:
  "(tls_layer c = Some t \<longrightarrow>
      tls (newSession sv c)
      \<and> Peer.TLS (peer (newSession sv c)) = Some (tls_ConnectionState (snd (Handshake t))))
   \<and> (tls_layer c = None \<longrightarrow>
      \<not> tls (newSession sv c) \<and> Peer.TLS (peer (newSession sv c)) = None)
   \<and> scanner (newSession sv c) = NewScanner
   \<and> incoming (conn (newSession sv c)) = incoming c"
  by (auto simp: newSession_def Let_def split: option.splits)

theorem C9_newSession_tls_witness:
  "tls (newSession test_Server
     ((tcp_conn ''192.0.2.7:40000'' ''EHLO c'')\<lparr>tls_layer := Some \<lparr>hs = NotRun,
        hello = Inr \<lparr>HandshakeComplete = True, NegotiatedProtocol = ''smtp''\<rparr>\<rparr>\<rparr>))
   \<and> Peer.TLS (peer (newSession test_Server
     ((tcp_conn ''192.0.2.7:40000'' ''EHLO c'')\<lparr>tls_layer := Some \<lparr>hs = NotRun,
        hello = Inr \<lparr>HandshakeComplete = True, NegotiatedProtocol = ''smtp''\<rparr>\<rparr>\<rparr>)))
     = Some \<lparr>HandshakeComplete = True, NegotiatedProtocol = ''smtp''\<rparr>
   \<and> \<not> tls (newSession test_Server (tcp_conn ''192.0.2.7:40000'' ''EHLO c''))
   \<and> Peer.TLS (peer (newSession test_Server (tcp_conn ''192.0.2.7:40000'' ''EHLO c''))) = None"
  using
    C9_newSession_tls [of
      "(tcp_conn ''192.0.2.7:40000'' ''EHLO c'')\<lparr>tls_layer := Some \<lparr>hs = NotRun,
        hello = Inr \<lparr>HandshakeComplete = True, NegotiatedProtocol = ''smtp''\<rparr>\<rparr>\<rparr>"
      "\<lparr>hs = NotRun, hello = Inr \<lparr>HandshakeComplete = True, NegotiatedProtocol = ''smtp''\<rparr>\<rparr>"
      test_Server]
    C9_newSession_tls [of "tcp_conn ''192.0.2.7:40000'' ''EHLO c''" undefined test_Server]
  by (simp add: tcp_conn_def Handshake_def tls_ConnectionState_def)

subsection \<open>The connection limit\<close>

text \<open>
  C8, as the code has it. When a call of \<open>Serve\<close> enters its accept loop, the capacity
  of its limiter follows the configured \<open>MaxConnections\<close>: 0 is replaced by the default
  100 and the limit is enforced at 100; a positive value is the limit; only a negative
  value gives no limiter, that is, no limit.
\<close>

theorem C8_max_connections:
  "Serve ln ctx w = (InLoop a, w') \<Longrightarrow>
   limiter (loops w' ! a) =
     (if MaxConnections (srv w) = 0 then Some 100
      else if 0 < MaxConnections (srv w) then Some (nat (MaxConnections (srv w)))
      else None)
   \<and> MaxConnections (srv w') =
     (if MaxConnections (srv w) = 0 then 100 else MaxConnections (srv w))"
proof -
  assume entered: "Serve ln ctx w = (InLoop a, w')"
  then obtain sv where sv: "configureDefaults (srv w) = Some sv"
    by (cases "configureDefaults (srv w)") (simp_all add: Serve_def split: if_split_asm)
  from entered sv have a: "a = length (loops w)"
    and w': "loops w' ! a = \<lparr>oc = \<lparr>Listener = ln, closeErr = None, once = False\<rparr>,
                        limiter = (if 0 < MaxConnections sv then Some (nat (MaxConnections sv))
                                   else None),
                        limiter_len = 0, tasks = [], ctx_err = ctx, returned = None,
                        entered = True\<rparr>"
    and s': "srv w' = sv\<lparr>listener := Some a\<rparr>"
    by (auto simp: Serve_def Let_def split: if_split_asm)
  show ?thesis
    using w' s' configureDefaults_fields(1) [OF sv] by simp
qed

theorem C8_max_connections_witness:
  "fst (Serve (listener_closing_with None) None (new_world (test_Server\<lparr>MaxConnections := - 1\<rparr>)))
     = InLoop 0
   \<and> limiter (loops (snd (Serve (listener_closing_with None) None
                         (new_world (test_Server\<lparr>MaxConnections := - 1\<rparr>)))) ! 0) = None"
proof -
  let ?w = "new_world (test_Server\<lparr>MaxConnections := - 1\<rparr>)"
  let ?r = "Serve (listener_closing_with None) None ?w"
  have outcome: "fst ?r = InLoop 0"
    by (simp add: Serve_def configureDefaults_eq Let_def new_world_def test_Server_def
        shuttingDown_def)
  have entered: "?r = (InLoop 0, snd ?r)"
    by (rule prod_eqI) (simp_all add: outcome)
  have configured: "MaxConnections (srv ?w) = - 1"
    by (simp add: new_world_def test_Server_def)
  have "limiter (loops (snd ?r) ! 0) =
     (if MaxConnections (srv ?w) = 0 then Some 100
      else if 0 < MaxConnections (srv ?w) then Some (nat (MaxConnections (srv ?w)))
      else None)"
    by (rule C8_max_connections [OF entered, THEN conjunct1])
  then have "limiter (loops (snd ?r) ! 0) = None"
    by (simp only: configured) simp
  with outcome show ?thesis by (rule_tac conjI)
qed

text \<open>
  The claim's last clause, that every non-positive value disables the limit, fails at
  0: the test server leaves \<open>MaxConnections\<close> at 0 and gets a limiter of capacity 100.
\<close>

theorem C8_zero_is_capped:
  "MaxConnections (srv (new_world test_Server)) \<le> 0
   \<and> fst (Serve (listener_closing_with None) None (new_world test_Server)) = InLoop 0
   \<and> limiter (loops (snd (Serve (listener_closing_with None) None (new_world test_Server))) ! 0)
       = Some 100"
  by (simp add: Serve_def configureDefaults_eq Let_def new_world_def test_Server_def
      shuttingDown_def)

subsection \<open>Line overflow\<close>

lemma after_line_append:
  "LF \<notin> set line \<Longrightarrow> after_line (line @ LF # rest) = rest"
  by (simp add: after_line_def dropWhile_append)

lemma line_of_append:
  "LF \<notin> set line \<Longrightarrow> line_of (line @ LF # rest) = line"
  by (simp add: line_of_def takeWhile_append)

lemma after_line_none: "LF \<notin> set bs \<Longrightarrow> after_line bs = []"
proof -
  assume "LF \<notin> set bs"
  then have none: "dropWhile (\<lambda>b. b \<noteq> LF) bs = []"
    by (auto simp: dropWhile_eq_Nil_conv)
  show ?thesis unfolding after_line_def none by simp
qed

lemma ReadString_after_line:
  "incoming (conn (snd (ReadString LF s))) = after_line (incoming (conn s))"
  by (simp add: ReadString_def Let_def after_line_none) (simp add: after_line_def)

lemma ReadString_conn:
  "conn (snd (ReadString LF s)) = (conn s)\<lparr>incoming := after_line (incoming (conn s))\<rparr>"
  by (simp add: ReadString_def Let_def after_line_none) (simp add: after_line_def)

lemma ReadString_rest:
  "snd (ReadString LF s) = s\<lparr>conn := (conn s)\<lparr>incoming := after_line (incoming (conn s))\<rparr>\<rparr>"
  by (simp add: ReadString_def Let_def after_line_none) (simp add: after_line_def)

lemma Scan_overflow:
  assumes "serr (scanner s) = None" and "sbuf (scanner s) = []"
    and "MaxScanTokenSize \<le> length (incoming (conn s))"
    and "LF \<notin> set (take MaxScanTokenSize (incoming (conn s)))"
  shows "Scan s =
    (False, s\<lparr>scanner := (scanner s)\<lparr>sbuf := take MaxScanTokenSize (incoming (conn s)),
                                       serr := Some ErrTooLong\<rparr>,
              conn := (conn s)\<lparr>incoming := drop MaxScanTokenSize (incoming (conn s))\<rparr>\<rparr>)"
  using assms by (simp add: Scan_def Let_def)

lemma Scan_line:
  assumes "serr (scanner s) = None" and "sbuf (scanner s) = []"
    and "incoming (conn s) = line @ LF # rest" and "LF \<notin> set line"
    and "length line < MaxScanTokenSize"
  shows "Scan s =
    (True, s\<lparr>scanner := (scanner s)\<lparr>token := dropCR line, sbuf := []\<rparr>,
             conn := (conn s)\<lparr>incoming := rest\<rparr>\<rparr>)"
  using assms by (simp add: Scan_def Let_def after_line_append line_of_append take_Cons')

lemma Scan_end:
  assumes "serr (scanner s) = None" and "sbuf (scanner s) = []" and "incoming (conn s) = []"
  shows "Scan s =
    (False, s\<lparr>conn := (conn s)\<lparr>incoming := []\<rparr>,
              scanner := (scanner s)\<lparr>serr := Some (case in_end (conn s) of None \<Rightarrow> io_EOF
                                                      | Some read_err \<Rightarrow> read_err)\<rparr>\<rparr>)"
  using assms by (simp add: Scan_def Let_def MaxScanTokenSize_def)

lemma flush_Fprintf_conn:
  "conn (flush (Fprintf bs s)) =
     (if werr (writer s) \<or> closed (conn s) \<or> wbuf (writer s) @ bs = [] then conn s
      else (conn s)\<lparr>sent := sent (conn s) @ wbuf (writer s) @ bs\<rparr>)"
  by (simp add: flush_def Writer_Flush_def Fprintf_def)

text \<open>
  C4. When the inner loop of \<open>session.serve\<close> ends because the scanner failed with
  \<open>ErrTooLong\<close>, the session goes on with the outer loop from a state in which: the
  typed error 500 has been written and flushed (after whatever the writer still held,
  unless the writer had failed or the connection was closed); the pending input has
  lost the bytes up to and with the next newline; the scanner is a new one on the same
  input; no envelope is in progress; the connection is as open as it was.
\<close>

theorem C4_line_too_long:
  assumes "scan_commands handle s = Some s1" and "scanner_too_long s1"
  shows "serve_loop long_msg handle s = serve_loop long_msg handle (line_too_long long_msg s1)
    \<and> sent (conn (line_too_long long_msg s1)) =
        (if werr (writer s1) \<or> closed (conn s1) then sent (conn s1)
         else sent (conn s1) @ wbuf (writer s1) @ ''500 '' @ long_msg @ CRLF)
    \<and> incoming (conn (line_too_long long_msg s1)) = after_line (incoming (conn s1))
    \<and> scanner (line_too_long long_msg s1) = NewScanner
    \<and> envelope (line_too_long long_msg s1) = None
    \<and> closed (conn (line_too_long long_msg s1)) = closed (conn s1)
    \<and> in_end (conn (line_too_long long_msg s1)) = in_end (conn s1)"
proof -
  have loop: "serve_loop long_msg handle s = serve_loop long_msg handle (line_too_long long_msg s1)"
    by (subst serve_loop.simps) (simp add: assms)
  have err: "session_error (ErrLineTooLong long_msg) s1 =
      flush (Fprintf (''500 '' @ long_msg @ CRLF) s1)"
    by (simp add: ErrLineTooLong_def session_error_typed fmt_03d_500)
  have c: "conn (line_too_long long_msg s1) =
      (conn (flush (Fprintf (''500 '' @ long_msg @ CRLF) s1)))
        \<lparr>incoming := after_line (incoming (conn (flush (Fprintf (''500 '' @ long_msg @ CRLF) s1))))\<rparr>"
    by (simp add: line_too_long_def Let_def reset_def err ReadString_rest)
  show ?thesis
    using loop by (simp add: c flush_Fprintf_conn) (simp add: line_too_long_def Let_def reset_def)
qed

lemma overlong_line_props:
  "length overlong_line = MaxScanTokenSize" "LF \<notin> set overlong_line"
  by (simp_all add: overlong_line_def LF_def)

lemma fmt_d_250: "fmt_d 250 = ''250''"
  by (simp add: fmt_d_def digits.simps digit_char_def)

theorem C4_line_too_long_witness:
  "map_option (\<lambda>s. (sent (conn s), envelope s, closed (conn s)))
     (serve_loop ''Line too long'' echo mail_session)
   = Some (''500 Line too long'' @ CRLF @ ''250 NOOP'' @ CRLF, None, False)"
proof -
  let ?m = "''Line too long''"
  define s1 where "s1 = snd (Scan mail_session)"
  define s2 where "s2 = line_too_long ?m s1"
  define s3 where "s3 = snd (Scan s2)"
  define s4 where "s4 = echo (Text s3) s3"
  define s5 where "s5 = snd (Scan s4)"
  have init: "serr (scanner mail_session) = None" "sbuf (scanner mail_session) = []"
    "incoming (conn mail_session) = overlong_line @ LF # ''NOOP'' @ CRLF"
    "writer mail_session = NewWriter" "\<not> closed (conn mail_session)"
    "sent (conn mail_session) = []" "in_end (conn mail_session) = None"
    by (simp_all add: mail_session_def newSession_def tcp_conn_def NewScanner_def)
  have scan0: "Scan mail_session =
    (False, mail_session\<lparr>scanner := (scanner mail_session)\<lparr>sbuf := overlong_line,
                                       serr := Some ErrTooLong\<rparr>,
              conn := (conn mail_session)\<lparr>incoming := LF # ''NOOP'' @ CRLF\<rparr>\<rparr>)"
    using Scan_overflow [of mail_session] by (simp add: init overlong_line_props)
  have inner: "scan_commands echo mail_session = Some s1"
    unfolding s1_def by (subst scan_commands.simps) (simp add: scan0)
  have s1: "serr (scanner s1) = Some ErrTooLong" "incoming (conn s1) = LF # ''NOOP'' @ CRLF"
    "writer s1 = NewWriter" "\<not> closed (conn s1)" "sent (conn s1) = []" "in_end (conn s1) = None"
    by (simp_all add: s1_def scan0 init)
  have long: "scanner_too_long s1"
    by (simp add: s1 scanner_too_long_def Scanner_Err_def ErrTooLong_def io_EOF_def)
  from C4_line_too_long [OF inner long, of ?m]
  have recovered: "serve_loop ?m echo mail_session = serve_loop ?m echo s2"
    and s2: "sent (conn s2) = ''500 Line too long'' @ CRLF"
      "incoming (conn s2) = (''NOOP'' @ [CR]) @ LF # []"
      "scanner s2 = NewScanner" "envelope s2 = None" "\<not> closed (conn s2)"
      "in_end (conn s2) = None"
    by (simp_all add: s2_def s1 NewWriter_def after_line_def CRLF_def)
  have w2: "writer s2 = NewWriter"
    by (simp add: s2_def line_too_long_def Let_def reset_def ReadString_rest session_error_typed
        ErrLineTooLong_def flush_def Writer_Flush_def Fprintf_def s1)
       (simp add: NewWriter_def)
  have scan2: "Scan s2 =
    (True, s2\<lparr>scanner := (scanner s2)\<lparr>token := dropCR (''NOOP'' @ [CR]), sbuf := []\<rparr>,
             conn := (conn s2)\<lparr>incoming := []\<rparr>\<rparr>)"
    by (rule Scan_line) (simp_all add: s2 NewScanner_def LF_def CR_def MaxScanTokenSize_def)
  have s4: "sent (conn s4) = ''500 Line too long'' @ CRLF @ ''250 NOOP'' @ CRLF"
    "incoming (conn s4) = []" "serr (scanner s4) = None" "sbuf (scanner s4) = []"
    "envelope s4 = None" "\<not> closed (conn s4)" "in_end (conn s4) = None"
    by (simp_all add: s4_def s3_def scan2 echo_def reply_def Text_def dropCR_def fmt_d_250
        flush_def Writer_Flush_def Fprintf_def w2 s2 NewWriter_def NewScanner_def CR_def)
  have scan4: "Scan s4 =
    (False, s4\<lparr>conn := (conn s4)\<lparr>incoming := []\<rparr>,
              scanner := (scanner s4)\<lparr>serr := Some io_EOF\<rparr>\<rparr>)"
    using Scan_end [of s4] by (simp add: s4)
  have "scan_commands echo s2 = scan_commands echo s4"
    by (subst scan_commands.simps) (simp add: scan2 s4_def s3_def)
  also have "scan_commands echo s4 = Some s5"
    unfolding s5_def by (subst scan_commands.simps) (simp add: scan4)
  finally have inner2: "scan_commands echo s2 = Some s5" .
  have fine: "\<not> scanner_too_long s5"
    by (simp add: s5_def scan4 scanner_too_long_def Scanner_Err_def)
  have "serve_loop ?m echo s2 = Some s5"
    by (subst serve_loop.simps) (simp add: inner2 fine)
  with recovered have "serve_loop ?m echo mail_session = Some s5" by simp
  then show ?thesis by (simp add: s5_def scan4 s4)
qed

subsection \<open>The shutdown flag and the wait group\<close>

lemma Serve_cases:
  obtains (closed) "shuttingDown (srv w)" "Serve ln ctx w = (AtOnce ErrServerClosed, w)"
  | (fatal) "\<not> shuttingDown (srv w)" "configureDefaults (srv w) = None"
      "Serve ln ctx w = (ProcessExit, w)"
  | (loop) sv where "\<not> shuttingDown (srv w)" "configureDefaults (srv w) = Some sv"
      "Serve ln ctx w =
        (InLoop (length (loops w)),
         w\<lparr>srv := sv\<lparr>listener := Some (length (loops w))\<rparr>,
           loops := loops w @ [\<lparr>oc = \<lparr>Listener = ln, closeErr = None, once = False\<rparr>,
              limiter = (if 0 < MaxConnections sv then Some (nat (MaxConnections sv)) else None),
              limiter_len = 0, tasks = [], ctx_err = ctx, returned = None,
              entered = True\<rparr>]\<rparr>)"
  by (cases "shuttingDown (srv w)"; cases "configureDefaults (srv w)")
     (simp_all add: Serve_def Let_def)

lemma Serve_begin_cases:
  obtains (closed) "shuttingDown (srv w)" "Serve_begin ln ctx w = (AtOnce ErrServerClosed, w)"
  | (fatal) "\<not> shuttingDown (srv w)" "configureDefaults (srv w) = None"
      "Serve_begin ln ctx w = (ProcessExit, w)"
  | (begun) sv where "\<not> shuttingDown (srv w)" "configureDefaults (srv w) = Some sv"
      "Serve_begin ln ctx w =
        (InLoop (length (loops w)),
         w\<lparr>srv := sv,
           loops := loops w @ [\<lparr>oc = \<lparr>Listener = ln, closeErr = None, once = False\<rparr>,
              limiter = None, limiter_len = 0, tasks = [], ctx_err = ctx, returned = None,
              entered = False\<rparr>]\<rparr>)"
  by (cases "shuttingDown (srv w)"; cases "configureDefaults (srv w)")
     (simp_all add: Serve_begin_def Let_def)

text \<open>A call of \<open>Serve\<close> that nothing interrupts is its two parts in a row.\<close>

lemma Serve_parts:
  "Serve ln ctx w =
     (case fst (Serve_begin ln ctx w) of
        InLoop a \<Rightarrow> (InLoop a, Serve_assign a (snd (Serve_begin ln ctx w)))
      | out \<Rightarrow> (out, snd (Serve_begin ln ctx w)))"
  by (cases rule: Serve_begin_cases [of w ln ctx])
     (simp_all add: Serve_def Serve_assign_def Let_def)

text \<open>
  The events of the calls that nothing interrupts add no history: each is a sequence
  of the events of the parts.
\<close>

lemma Ev_Serve_parts:
  "step bm (Ev_Serve closes ctx) w
     = run bm [Ev_ServeBegin closes ctx, Ev_ServeAssign (length (loops w))] w"
  by (cases rule: Serve_begin_cases [of w "new_listener closes" ctx])
     (simp_all add: Serve_parts)

lemma Ev_ListenAndServe_parts:
  "step bm (Ev_ListenAndServe addr (Inl err) ctx) w = step bm (Ev_Listen addr) w"
  "step bm (Ev_ListenAndServe addr (Inr closes) ctx) w
     = run bm [Ev_Listen addr, Ev_Serve closes ctx] w"
  by (simp_all add: ListenAndServe_def Serve_def Let_def)

lemma Serve_begin_inShutdown:
  "inShutdown (srv (snd (Serve_begin ln ctx w))) = inShutdown (srv w)"
  by (cases rule: Serve_begin_cases [of w ln ctx]) (simp_all add: configureDefaults_fields)

lemma Serve_assign_inShutdown: "inShutdown (srv (Serve_assign a w)) = inShutdown (srv w)"
  by (simp add: Serve_assign_def Let_def)

lemma Serve_inShutdown: "inShutdown (srv (snd (Serve ln ctx w))) = inShutdown (srv w)"
  by (cases rule: Serve_cases [of w ln ctx]) (simp_all add: configureDefaults_fields)

lemma ListenAndServe_inShutdown:
  "inShutdown (srv (snd (ListenAndServe addr listened ctx w))) = inShutdown (srv w)"
  by (cases listened) (simp_all add: ListenAndServe_def Let_def Serve_inShutdown)

lemma Serve_return_srv: "srv (Serve_return k ex w) = srv w"
  by (simp add: Serve_return_def Let_def)

lemma accept_conn_inShutdown: "inShutdown (srv (accept_conn k c w)) = inShutdown (srv w)"
  by (simp add: accept_conn_def Let_def Serve_return_srv)

lemma getDoneChan_inShutdown: "inShutdown (snd (getDoneChan sv)) = inShutdown sv"
  by (simp add: getDoneChan_def getDoneChanLocked_def split: option.splits)

lemma accept_error_inShutdown:
  "inShutdown (srv (accept_error k e temporary pick_ctx cancel_in_wait w)) = inShutdown (srv w)"
  by (simp add: accept_error_def Let_def Serve_return_srv getDoneChan_inShutdown
      split: option.splits)

lemma run_task_inShutdown: "inShutdown (srv (run_task bm k i served w)) = inShutdown (srv w)"
  by (simp add: run_task_def Let_def set_task_def set_limiter_len_def waitgrp_Done_def
      split: pc.splits option.splits)

lemma closeDoneChanLocked_inShutdown: "inShutdown (closeDoneChanLocked sv) = inShutdown sv"
  by (simp add: closeDoneChanLocked_def getDoneChanLocked_def Let_def split: option.splits)

lemma Shutdown_inShutdown: "inShutdown (srv (snd (Shutdown wait w)))"
  by (simp add: Shutdown_def Let_def closeDoneChanLocked_inShutdown split: outcome.splits)

lemma step_inShutdown:
  "inShutdown (srv (step bm ev w)) = (inShutdown (srv w) \<or> is_Shutdown ev)"
  by (cases ev)
     (simp_all add: Serve_inShutdown Serve_begin_inShutdown Serve_assign_inShutdown
        ListenAndServe_inShutdown accept_conn_inShutdown
        accept_error_inShutdown run_task_inShutdown Shutdown_inShutdown)

lemma run_inShutdown:
  "inShutdown (srv (run bm evs w)) = (inShutdown (srv w) \<or> (\<exists>ev\<in>set evs. is_Shutdown ev))"
  by (induction evs arbitrary: w) (auto simp: step_inShutdown)

lemma limiter_len_same: "limiter_len lp = n \<Longrightarrow> lp\<lparr>limiter_len := n\<rparr> = lp"
  by (cases lp) simp

lemma run_task_eq:
  assumes "k < length (loops w)"
  shows "run_task bm k i served w =
     w\<lparr>srv := (srv w)\<lparr>waitgrp := waitgrp (srv w) - fst (task_effect bm (loops w ! k) i served)\<rparr>,
       loops := (loops w)[k := (loops w ! k)
          \<lparr>limiter_len := fst (snd (task_effect bm (loops w ! k) i served)),
           tasks := (tasks (loops w ! k))[i := snd (snd (task_effect bm (loops w ! k) i served))]\<rparr>]\<rparr>"
  using assms
  by (simp add: run_task_def task_effect_def Let_def set_task_def set_limiter_len_def
      waitgrp_Done_def limiter_len_same split: pc.splits option.splits)

lemma count_update:
  "i < length ts \<Longrightarrow>
   length (filter P (ts[i := t])) + (if P (ts ! i) then 1 else 0)
   = length (filter P ts) + (if P t then 1 else 0)"
proof (induction ts arbitrary: i)
  case Nil
  then show ?case by simp
next
  case (Cons a ts)
  show ?case
  proof (cases i)
    case 0
    then show ?thesis by simp
  next
    case (Suc j)
    with Cons.prems have "j < length ts" by simp
    from Cons.IH [OF this] Suc show ?thesis by simp
  qed
qed

lemma sum_list_map_update:
  "k < length xs \<Longrightarrow>
   sum_list (map f (xs[k := x])) + f (xs ! k) = sum_list (map f xs) + (f x :: nat)"
proof (induction xs arbitrary: k)
  case Nil
  then show ?case by simp
next
  case (Cons a xs)
  show ?case
  proof (cases k)
    case 0
    then show ?thesis by simp
  next
    case (Suc j)
    with Cons.prems have "j < length xs" by simp
    from Cons.IH [OF this] Suc show ?thesis by simp
  qed
qed

lemma sum_list_map_update_same:
  assumes "(f x :: nat) = f (xs ! k)"
  shows "sum_list (map f (xs[k := x])) = sum_list (map f xs)"
proof (cases "k < length xs")
  case True
  from sum_list_map_update [OF True, of f x] assms show ?thesis by simp
next
  case False
  then have "length xs \<le> k" by (rule leI)
  then have "xs[k := x] = xs" by (rule list_update_beyond)
  then show ?thesis by simp
qed

lemma pending_update_same:
  "unfinished lp = unfinished (loops w ! k) \<Longrightarrow>
   sum_list (map unfinished ((loops w)[k := lp])) = pending w"
  by (simp add: pending_def sum_list_map_update_same)

lemma unfinished_fields [simp]:
  "unfinished (lp\<lparr>oc := x\<rparr>) = unfinished lp"
  "unfinished (lp\<lparr>returned := y\<rparr>) = unfinished lp"
  "unfinished (lp\<lparr>ctx_err := z\<rparr>) = unfinished lp"
  "unfinished (lp\<lparr>limiter_len := n\<rparr>) = unfinished lp"
  "unfinished (lp\<lparr>limiter := cap\<rparr>) = unfinished lp"
  "unfinished (lp\<lparr>entered := b\<rparr>) = unfinished lp"
  by (simp_all add: unfinished_def)

lemma Serve_wg: "wg_inv w \<Longrightarrow> wg_inv (snd (Serve ln ctx w))"
  by (cases rule: Serve_cases [of w ln ctx])
     (simp_all add: wg_inv_def pending_def configureDefaults_fields unfinished_def)

lemma Serve_begin_wg: "wg_inv w \<Longrightarrow> wg_inv (snd (Serve_begin ln ctx w))"
  by (cases rule: Serve_begin_cases [of w ln ctx])
     (simp_all add: wg_inv_def pending_def configureDefaults_fields unfinished_def)

lemma Serve_assign_wg: "wg_inv w \<Longrightarrow> wg_inv (Serve_assign a w)"
  by (simp add: wg_inv_def Serve_assign_def Let_def pending_def sum_list_map_update_same)

lemma ListenAndServe_wg: "wg_inv w \<Longrightarrow> wg_inv (snd (ListenAndServe addr listened ctx w))"
proof (cases listened)
  case (Inl err)
  assume "wg_inv w"
  with Inl show ?thesis by (simp add: ListenAndServe_def Let_def wg_inv_def pending_def)
next
  case (Inr ln)
  assume "wg_inv w"
  then have "wg_inv (w\<lparr>listen_calls := listen_calls w @ [addr]\<rparr>)"
    by (simp add: wg_inv_def pending_def)
  then show ?thesis using Inr
    by (simp add: ListenAndServe_def Let_def Serve_wg) (simp add: wg_inv_def pending_def)
qed

lemma Serve_return_wg: "wg_inv w \<Longrightarrow> wg_inv (Serve_return k ex w)"
  by (simp add: wg_inv_def Serve_return_def Let_def pending_update_same)
     (simp add: pending_def sum_list_map_update_same)

lemma unfinished_append:
  "unfinished (lp\<lparr>tasks := tasks lp @ [t]\<rparr>) = unfinished lp + (if pc t \<noteq> Finished then 1 else 0)"
  by (simp add: unfinished_def)

lemma accept_conn_wg:
  assumes "wg_inv w" and "k < length (loops w)"
  shows "wg_inv (accept_conn k c w)"
proof (cases "case ConnContext (srv w) of None \<Rightarrow> False | Some cc \<Rightarrow> \<not> cc c")
  case True
  then show ?thesis using assms by (simp add: accept_conn_def Serve_return_wg)
next
  case False
  let ?lp = "(loops w ! k)\<lparr>tasks := tasks (loops w ! k) @ [\<lparr>pc = Spawned, sess = newSession (srv w) c\<rparr>]\<rparr>"
  from sum_list_map_update [OF assms(2), of unfinished ?lp]
  have "sum_list (map unfinished ((loops w)[k := ?lp])) = pending w + 1"
    by (simp add: unfinished_append pending_def)
  with False assms show ?thesis
    by (simp add: accept_conn_def Let_def wg_inv_def) (simp add: pending_def)
qed

lemma getDoneChan_waitgrp: "waitgrp (snd (getDoneChan sv)) = waitgrp sv"
  by (simp add: getDoneChan_def getDoneChanLocked_def split: option.splits)

lemma wg_inv_srv:
  "wg_inv w \<Longrightarrow> waitgrp sv = waitgrp (srv w) \<Longrightarrow> wg_inv (w\<lparr>srv := sv\<rparr>)"
  by (simp add: wg_inv_def pending_def)

lemma wg_inv_loop:
  "wg_inv w \<Longrightarrow> unfinished lp = unfinished (loops w ! k) \<Longrightarrow>
   wg_inv (w\<lparr>loops := (loops w)[k := lp]\<rparr>)"
  by (simp add: wg_inv_def pending_def sum_list_map_update_same)

lemma accept_error_wg:
  assumes "wg_inv w"
  shows "wg_inv (accept_error k e temporary pick_ctx cancel_in_wait w)"
proof -
  let ?w1 = "w\<lparr>srv := snd (getDoneChan (srv w))\<rparr>"
  have w1: "wg_inv ?w1"
    using assms by (rule wg_inv_srv) (simp add: getDoneChan_waitgrp)
  have w2: "wg_inv (?w1\<lparr>loops := (loops ?w1)[k := (loops w ! k)\<lparr>ctx_err := Some ce\<rparr>]\<rparr>)" for ce
    using w1 by (rule wg_inv_loop) simp
  show ?thesis
    using w1 w2 by (simp add: accept_error_def Let_def Serve_return_wg split: option.splits)
qed

lemma task_effect_unfinished:
  "(if pc (snd (snd (task_effect bm lp i served))) \<noteq> Finished then 1 else 0)
     + fst (task_effect bm lp i served)
   = (if pc (tasks lp ! i) \<noteq> Finished then 1 else (0::nat))"
  by (simp add: task_effect_def Let_def split: pc.splits option.splits)

lemma run_task_wg:
  assumes "wg_inv w" and "k < length (loops w)" and "i < length (tasks (loops w ! k))"
  shows "wg_inv (run_task bm k i served w)"
proof -
  let ?lp = "loops w ! k"
  let ?e = "task_effect bm ?lp i served"
  let ?lp' = "?lp\<lparr>limiter_len := fst (snd ?e), tasks := (tasks ?lp)[i := snd (snd ?e)]\<rparr>"
  have "unfinished ?lp' + (if pc (tasks ?lp ! i) \<noteq> Finished then 1 else 0)
      = unfinished ?lp + (if pc (snd (snd ?e)) \<noteq> Finished then 1 else 0)"
    using count_update [OF assms(3), of "\<lambda>t. pc t \<noteq> Finished" "snd (snd ?e)"]
    by (simp add: unfinished_def)
  with task_effect_unfinished [of bm ?lp i served]
  have loop: "unfinished ?lp' + fst ?e = unfinished ?lp" by simp
  from sum_list_map_update [OF assms(2), of unfinished ?lp']
  have "sum_list (map unfinished ((loops w)[k := ?lp'])) + unfinished ?lp
      = pending w + unfinished ?lp'"
    by (simp add: pending_def)
  with loop have "sum_list (map unfinished ((loops w)[k := ?lp'])) + fst ?e = pending w"
    by simp
  then show ?thesis
    using assms(1) by (simp add: run_task_eq [OF assms(2)] wg_inv_def) (simp add: pending_def)
qed

lemma closeDoneChanLocked_waitgrp: "waitgrp (closeDoneChanLocked sv) = waitgrp sv"
  by (simp add: closeDoneChanLocked_def getDoneChanLocked_def Let_def split: option.splits)

lemma Shutdown_wg: "wg_inv w \<Longrightarrow> wg_inv (snd (Shutdown wait w))"
  by (simp add: Shutdown_def Let_def wg_inv_def closeDoneChanLocked_waitgrp
      split: option.splits outcome.splits)
     (simp add: pending_def sum_list_map_update_same)

lemma step_wg: "wg_inv w \<Longrightarrow> wg_inv (step bm ev w)"
proof (cases ev)
  case (Ev_Cancel k ce)
  assume "wg_inv w"
  then have "wg_inv (w\<lparr>loops := (loops w)[k := (loops w ! k)\<lparr>ctx_err := Some ce\<rparr>]\<rparr>)"
    by (rule wg_inv_loop) simp
  with \<open>wg_inv w\<close> Ev_Cancel show ?thesis by simp
next
  case (Ev_Listen addr)
  assume "wg_inv w"
  then have "wg_inv (w\<lparr>listen_calls := listen_calls w @ [addr]\<rparr>)"
    by (simp add: wg_inv_def pending_def)
  with \<open>wg_inv w\<close> Ev_Listen show ?thesis by simp
qed (simp_all add: Serve_wg Serve_begin_wg Serve_assign_wg ListenAndServe_wg accept_conn_wg
      accept_error_wg run_task_wg Shutdown_wg accepting_def)

lemma new_world_wg: "wg_inv (new_world sv)"
  by (simp add: wg_inv_def new_world_def pending_def)

lemma run_wg: "wg_inv w \<Longrightarrow> wg_inv (run bm evs w)"
  by (induction evs arbitrary: w) (simp_all add: step_wg)

lemma sum_list_zero_iff: "(sum_list (map f xs) = (0::nat)) = (\<forall>x\<in>set xs. f x = 0)"
  by (induction xs) auto

lemma waitgrp_zero:
  "wg_inv w \<Longrightarrow> (waitgrp (srv w) = 0) = (\<forall>lp\<in>set (loops w). unfinished lp = 0)"
  by (simp add: wg_inv_def pending_def sum_list_zero_iff)

lemma is_Shutdown_mem:
  "(\<exists>ev\<in>set evs. is_Shutdown ev) = (Ev_Shutdown True \<in> set evs \<or> Ev_Shutdown False \<in> set evs)"
proof
  assume "\<exists>ev\<in>set evs. is_Shutdown ev"
  then obtain ev where mem: "ev \<in> set evs" and sh: "is_Shutdown ev" by blast
  show "Ev_Shutdown True \<in> set evs \<or> Ev_Shutdown False \<in> set evs"
  proof (cases ev)
    case (Ev_Shutdown wait)
    with mem show ?thesis by (cases wait) simp_all
  qed (use sh in simp_all)
next
  assume "Ev_Shutdown True \<in> set evs \<or> Ev_Shutdown False \<in> set evs"
  then show "\<exists>ev\<in>set evs. is_Shutdown ev"
  proof
    assume "Ev_Shutdown True \<in> set evs"
    then show ?thesis by (rule rev_bexI) simp
  next
    assume "Ev_Shutdown False \<in> set evs"
    then show ?thesis by (rule rev_bexI) simp
  qed
qed

lemma shuttingDown_run:
  "shuttingDown (srv (run bm evs (new_world sv)))
   = (Ev_Shutdown True \<in> set evs \<or> Ev_Shutdown False \<in> set evs)"
  by (simp add: shuttingDown_def run_inShutdown is_Shutdown_mem) (simp add: new_world_def)

text \<open>
  C6. In every state that the server reaches by a history in which \<open>Shutdown\<close> has been
  called, \<open>Serve\<close> and \<open>ListenAndServe\<close> return \<open>ErrServerClosed\<close> at once and leave
  everything as it is: no listener is asked for, no accept loop is entered.
\<close>

theorem C6_serve_after_shutdown:
  assumes "Ev_Shutdown wait \<in> set evs"
  shows "Serve ln ctx (run bm evs (new_world sv))
           = (AtOnce ErrServerClosed, run bm evs (new_world sv))
    \<and> ListenAndServe addr listened ctx (run bm evs (new_world sv))
           = (AtOnce ErrServerClosed, run bm evs (new_world sv))"
proof -
  from assms have "Ev_Shutdown True \<in> set evs \<or> Ev_Shutdown False \<in> set evs"
    by (cases wait) simp_all
  then have "shuttingDown (srv (run bm evs (new_world sv)))"
    by (simp add: shuttingDown_run)
  then show ?thesis by (simp add: Serve_def ListenAndServe_def)
qed

theorem C6_serve_after_shutdown_witness:
  "Serve (new_listener (\<lambda>n. None)) None
     (run ''Too busy'' [Ev_Serve (\<lambda>n. None) None, Ev_Shutdown False] (new_world test_Server))
     = (AtOnce ErrServerClosed,
        run ''Too busy'' [Ev_Serve (\<lambda>n. None) None, Ev_Shutdown False] (new_world test_Server))
   \<and> ListenAndServe ''127.0.0.1:2525'' (Inr (new_listener (\<lambda>n. None))) None
     (run ''Too busy'' [Ev_Serve (\<lambda>n. None) None, Ev_Shutdown False] (new_world test_Server))
     = (AtOnce ErrServerClosed,
        run ''Too busy'' [Ev_Serve (\<lambda>n. None) None, Ev_Shutdown False] (new_world test_Server))"
  using C6_serve_after_shutdown [of False "[Ev_Serve (\<lambda>n. None) None, Ev_Shutdown False]"]
  by simp

text \<open>
  C7. In every state that the server reaches, \<open>Wait\<close> returns the error
  \<open>Server has not been Shutdown\<close> exactly when the history holds no call of \<open>Shutdown\<close>.
  After a call of \<open>Shutdown\<close> it returns nil: at once when every session goroutine has
  finished, else after blocking until the wait group's counter is zero, which is when
  they all have.
\<close>

theorem C7_wait:
  "(Wait (run bm evs (new_world sv)) = Returns (Some ErrNotShutdown))
     = (Ev_Shutdown True \<notin> set evs \<and> Ev_Shutdown False \<notin> set evs)
   \<and> (Ev_Shutdown True \<in> set evs \<or> Ev_Shutdown False \<in> set evs \<longrightarrow>
        Wait (run bm evs (new_world sv))
          = (if \<forall>lp\<in>set (loops (run bm evs (new_world sv))). unfinished lp = 0
             then Returns None else Parked None))"
proof -
  have "wg_inv (run bm evs (new_world sv))"
    by (rule run_wg) (rule new_world_wg)
  from waitgrp_zero [OF this] show ?thesis
    by (simp add: Wait_def shuttingDown_run)
qed

lemma map_update_same: "(map f xs)[k := f (xs ! k)] = map f xs"
proof (cases "k < length xs")
  case True
  then show ?thesis by (auto simp: list_eq_iff_nth_eq nth_list_update)
next
  case False
  then have "length (map f xs) \<le> k" by simp
  then show ?thesis by (rule list_update_beyond)
qed

lemma Shutdown_unfinished:
  "map unfinished (loops (snd (Shutdown wait w))) = map unfinished (loops w)"
  by (simp add: Shutdown_def Let_def map_update map_update_same
      split: option.splits outcome.splits)

theorem C7_wait_witness:
  "Wait (run ''Too busy''
      [Ev_Serve (\<lambda>n. None) None, Ev_Accept 0 (tcp_conn ''192.0.2.7:40000'' [])]
      (new_world test_Server))
     = Returns (Some ErrNotShutdown)
   \<and> Wait (run ''Too busy''
      [Ev_Serve (\<lambda>n. None) None, Ev_Accept 0 (tcp_conn ''192.0.2.7:40000'' []),
       Ev_Shutdown False]
      (new_world test_Server))
     = Parked None"
proof -
  let ?c = "tcp_conn ''192.0.2.7:40000'' []"
  let ?w = "new_world test_Server"
  define w1 where "w1 = step ''Too busy'' (Ev_Serve (\<lambda>n. None) None) ?w"
  define w2 where "w2 = step ''Too busy'' (Ev_Accept 0 ?c) w1"
  define w3 where "w3 = step ''Too busy'' (Ev_Shutdown False) w2"
  have w1: "length (loops w1) = 1" "tasks (loops w1 ! 0) = []" "returned (loops w1 ! 0) = None"
    "ConnContext (srv w1) = None" "entered (loops w1 ! 0)"
    unfolding w1_def
    by (cases rule: Serve_cases [of ?w "new_listener (\<lambda>n. None)" None];
        simp add: configureDefaults_None configureDefaults_fields;
        simp add: new_world_def test_Server_def shuttingDown_def)+
  have "loops w2 = (loops w1)[0 := (loops w1 ! 0)\<lparr>tasks := [\<lparr>pc = Spawned, sess = newSession (srv w1) ?c\<rparr>]\<rparr>]"
    by (simp add: w2_def accepting_def accept_conn_def Let_def w1)
  then have "map unfinished (loops w2) = (map unfinished (loops w1))[0 := 1]"
    by (simp add: map_update unfinished_def)
  moreover from w1 obtain n where "map unfinished (loops w1) = [n]"
    by (cases "loops w1") simp_all
  ultimately have "map unfinished (loops w2) = [1]" by simp
  then have l3: "map unfinished (loops w3) = [1]"
    by (simp add: w3_def Shutdown_unfinished)
  have pending: "\<not> (\<forall>lp\<in>set (loops w3). unfinished lp = 0)"
  proof
    assume "\<forall>lp\<in>set (loops w3). unfinished lp = 0"
    then have "\<forall>n\<in>set (map unfinished (loops w3)). n = 0" by simp
    with l3 show False by simp
  qed
  have r3: "run ''Too busy'' [Ev_Serve (\<lambda>n. None) None, Ev_Accept 0 ?c, Ev_Shutdown False] ?w = w3"
    by (simp add: w3_def w2_def w1_def)
  from C7_wait [of "''Too busy''"
      "[Ev_Serve (\<lambda>n. None) None, Ev_Accept 0 ?c]" test_Server]
  have first: "Wait (run ''Too busy'' [Ev_Serve (\<lambda>n. None) None, Ev_Accept 0 ?c] ?w)
      = Returns (Some ErrNotShutdown)"
    by simp
  from C7_wait [of "''Too busy''"
      "[Ev_Serve (\<lambda>n. None) None, Ev_Accept 0 ?c, Ev_Shutdown False]" test_Server]
  have "Wait (run ''Too busy'' [Ev_Serve (\<lambda>n. None) None, Ev_Accept 0 ?c, Ev_Shutdown False] ?w)
      = (if \<forall>lp\<in>set (loops w3). unfinished lp = 0 then Returns None else Parked None)"
    unfolding r3 by simp
  with pending have "Wait (run ''Too busy''
      [Ev_Serve (\<lambda>n. None) None, Ev_Accept 0 ?c, Ev_Shutdown False] ?w) = Parked None"
    by simp
  with first show ?thesis by (rule conjI)
qed

subsection \<open>Shutdown and the once-closer\<close>

lemma oc_step_refl [simp]: "oc_step x x"
  by (simp add: oc_step_def)

lemma oc_step_Close [simp]: "oc_step x (snd (onceCloseListener_Close x))"
  by (simp add: oc_step_def)





lemma nth_update_any:
  "a < length xs \<Longrightarrow> xs[k := x] ! a = (if k = a then x else xs ! a)"
  by (cases "k = a") simp_all











text \<open>The unexported fields of the server under each operation.\<close>

lemma getDoneChan_fields:
  "listener (snd (getDoneChan sv)) = listener sv"
  "doneChan (snd (getDoneChan sv))
     = Some (case doneChan sv of None \<Rightarrow> \<lparr>close_ops = 0\<rparr> | Some ch \<Rightarrow> ch)"
  "fst (getDoneChan sv) = (case doneChan sv of None \<Rightarrow> \<lparr>close_ops = 0\<rparr> | Some ch \<Rightarrow> ch)"
  by (simp_all add: getDoneChan_def getDoneChanLocked_def split: option.splits)

lemma closeDoneChanLocked_fields:
  "listener (closeDoneChanLocked sv) = listener sv"
  "doneChan (closeDoneChanLocked sv)
     = Some (case doneChan sv of
               None \<Rightarrow> \<lparr>close_ops = 1\<rparr>
             | Some ch \<Rightarrow> if 0 < close_ops ch then ch else ch\<lparr>close_ops := Suc (close_ops ch)\<rparr>)"
  by (simp_all add: closeDoneChanLocked_def getDoneChanLocked_def Let_def split: option.splits)


lemma accept_error_fields:
  "listener (srv (accept_error k e temporary pick_ctx cancel_in_wait w)) = listener (srv w)"
  "doneChan (srv (accept_error k e temporary pick_ctx cancel_in_wait w))
     = Some (case doneChan (srv w) of None \<Rightarrow> \<lparr>close_ops = 0\<rparr> | Some ch \<Rightarrow> ch)"
  "length (loops (accept_error k e temporary pick_ctx cancel_in_wait w)) = length (loops w)"
  by (simp_all add: accept_error_def Let_def Serve_return_def getDoneChan_fields
      split: option.splits)


lemma Shutdown_fields:
  "listener (srv (snd (Shutdown wait w))) = listener (srv w)"
  "doneChan (srv (snd (Shutdown wait w)))
     = Some (case doneChan (srv w) of
               None \<Rightarrow> \<lparr>close_ops = 1\<rparr>
             | Some ch \<Rightarrow> if 0 < close_ops ch then ch else ch\<lparr>close_ops := Suc (close_ops ch)\<rparr>)"
  "length (loops (snd (Shutdown wait w))) = length (loops w)"
  by (simp_all add: Shutdown_def Let_def closeDoneChanLocked_fields
      split: option.splits outcome.splits)



















text \<open>
  The calls of \<open>Serve\<close> that have assigned \<open>srv.listener\<close>, and the pointer itself once
  the flag is set and no call is left to assign it.
\<close>

lemma same_limit_refl [simp]: "same_limit lp lp"
  by (simp add: same_limit_def)

lemma Serve_return_same:
  "a < length (loops w) \<Longrightarrow> same_limit (loops w ! a) (loops (Serve_return k ex w) ! a)"
  by (simp add: Serve_return_def Let_def nth_update_any same_limit_def)

lemma accept_error_same:
  "a < length (loops w) \<Longrightarrow>
   same_limit (loops w ! a) (loops (accept_error k e temporary pick_ctx cancel_in_wait w) ! a)"
  by (simp add: accept_error_def Let_def Serve_return_def nth_update_any same_limit_def
      split: option.splits)

lemma Shutdown_same:
  "a < length (loops w) \<Longrightarrow> same_limit (loops w ! a) (loops (snd (Shutdown wait w)) ! a)"
  by (simp add: Shutdown_def Let_def nth_update_any same_limit_def
      split: option.splits outcome.splits)



lemma Shutdown_listener: "listener (srv (snd (Shutdown wait w))) = listener (srv w)"
  by (rule Shutdown_fields)












text \<open>
  A call of \<open>Serve\<close> that has passed its test when \<open>Shutdown\<close> runs assigns
  \<open>srv.listener\<close> afterwards, and a second call of \<open>Shutdown\<close> then closes the
  listener of that call and returns its result.
\<close>

lemma Shutdown_after_late_assign:
  "let w = run ''Too busy''
             [Ev_Serve (\<lambda>n. None) None,
              Ev_ServeBegin (\<lambda>n. Some (Plain ''close failed'')) None]
             (new_world test_Server);
       first = Shutdown False w;
       w2 = run ''Too busy'' [Ev_ServeAssign 1] (snd first);
       second = Shutdown False w2
   in listener (srv w) = Some 0 \<and> result_of (fst first) = None
    \<and> listener (srv w2) = Some 1 \<and> result_of (fst second) = Some (Plain ''close failed'')"
  by (simp add: Serve_def Serve_begin_def Serve_assign_def configureDefaults_eq Let_def
      new_world_def test_Server_def shuttingDown_def Shutdown_def closeDoneChanLocked_def
      getDoneChanLocked_def onceCloseListener_Close_def onceCloseListener_close_def
      Listener_Close_def new_listener_def)
subsection \<open>The limiter\<close>

lemma cap_ok_same: "same_limit lp lp' \<Longrightarrow> cap_ok n lp \<Longrightarrow> cap_ok n lp'"
  by (simp add: same_limit_def cap_ok_def holding_def)

lemma cap_inv_update:
  assumes "cap_inv n w" and "MaxConnections sv = MaxConnections (srv w)"
    and "k < length (loops w) \<Longrightarrow> cap_ok n lp"
  shows "cap_inv n (w\<lparr>srv := sv, loops := (loops w)[k := lp]\<rparr>)"
  using assms by (simp add: cap_inv_def nth_update_any)

lemma cap_inv_same:
  assumes "cap_inv n w" and "MaxConnections (srv w') = MaxConnections (srv w)"
    and "length (loops w') = length (loops w)"
    and "\<And>a. a < length (loops w) \<Longrightarrow> same_limit (loops w ! a) (loops w' ! a)"
  shows "cap_inv n w'"
  using assms by (auto simp: cap_inv_def intro: cap_ok_same)

lemma cap_ok_new:
  "cap_ok n \<lparr>oc = x, limiter = Some n, limiter_len = 0, tasks = [], ctx_err = ctx,
             returned = None, entered = True\<rparr>"
  "cap_ok n \<lparr>oc = x, limiter = None, limiter_len = 0, tasks = [], ctx_err = ctx,
             returned = None, entered = False\<rparr>"
  by (simp_all add: cap_ok_def holding_def)

lemma Serve_cap:
  assumes "cap_inv n w" and "0 < n"
  shows "cap_inv n (snd (Serve ln ctx w))"
proof (cases rule: Serve_cases [of w ln ctx])
  case closed
  with assms show ?thesis by simp
next
  case fatal
  with assms show ?thesis by simp
next
  case (loop sv)
  from assms have m: "MaxConnections (srv w) = int n"
    and old: "\<And>k. k < length (loops w) \<Longrightarrow> cap_ok n (loops w ! k)"
    by (simp_all add: cap_inv_def)
  from configureDefaults_fields(1) [OF loop(2)] m assms(2) have sv: "MaxConnections sv = int n"
    by simp
  show ?thesis
    unfolding cap_inv_def loop(3)
    using old sv assms(2) by (auto simp: nth_append less_Suc_eq cap_ok_new)
qed

lemma Serve_begin_cap:
  assumes "cap_inv n w" and "0 < n"
  shows "cap_inv n (snd (Serve_begin ln ctx w))"
proof (cases rule: Serve_begin_cases [of w ln ctx])
  case closed
  with assms show ?thesis by simp
next
  case fatal
  with assms show ?thesis by simp
next
  case (begun sv)
  from assms have m: "MaxConnections (srv w) = int n"
    and old: "\<And>k. k < length (loops w) \<Longrightarrow> cap_ok n (loops w ! k)"
    by (simp_all add: cap_inv_def)
  from configureDefaults_fields(1) [OF begun(2)] m assms(2) have sv: "MaxConnections sv = int n"
    by simp
  show ?thesis
    unfolding cap_inv_def begun(3)
    using old sv assms(2) by (auto simp: nth_append less_Suc_eq cap_ok_new)
qed

lemma Serve_assign_cap:
  assumes "cap_inv n w" and "0 < n" and "a < length (loops w)" and "\<not> entered (loops w ! a)"
  shows "cap_inv n (Serve_assign a w)"
proof -
  from assms have m: "MaxConnections (srv w) = int n" and ok: "cap_ok n (loops w ! a)"
    by (simp_all add: cap_inv_def)
  from ok assms(4) have "tasks (loops w ! a) = []" by (simp add: cap_ok_def)
  with ok have "cap_ok n ((loops w ! a)\<lparr>limiter := Some n, entered := True\<rparr>)"
    by (simp add: cap_ok_def holding_def)
  with assms(1) have "cap_inv n (w\<lparr>srv := (srv w)\<lparr>listener := Some a\<rparr>,
      loops := (loops w)[a := (loops w ! a)\<lparr>limiter := Some n, entered := True\<rparr>]\<rparr>)"
    by (intro cap_inv_update) simp_all
  with m assms(2) show ?thesis by (simp add: Serve_assign_def Let_def)
qed

lemma cap_inv_listen_calls: "cap_inv n (w\<lparr>listen_calls := x\<rparr>) = cap_inv n w"
  by (simp add: cap_inv_def)

lemma ListenAndServe_cap:
  assumes "cap_inv n w" and "0 < n"
  shows "cap_inv n (snd (ListenAndServe addr listened ctx w))"
proof (cases listened)
  case (Inl err)
  with assms show ?thesis by (simp add: ListenAndServe_def Let_def cap_inv_listen_calls)
next
  case (Inr ln)
  from assms have "cap_inv n (w\<lparr>listen_calls := listen_calls w @ [addr]\<rparr>)"
    by (simp add: cap_inv_listen_calls)
  from Serve_cap [OF this assms(2), of ln ctx] assms Inr show ?thesis
    by (simp add: ListenAndServe_def Let_def)
qed

lemma newSession_writer: "writer (newSession sv c) = NewWriter"
  by (simp add: newSession_def Let_def split: option.splits)

lemma holding_append_Spawned:
  "holding (lp\<lparr>tasks := tasks lp @ [\<lparr>pc = Spawned, sess = s\<rparr>]\<rparr>) = holding lp"
  by (simp add: holding_def)

lemma accept_conn_cap:
  assumes "cap_inv n w" and "k < length (loops w)" and "entered (loops w ! k)"
  shows "cap_inv n (accept_conn k c w)"
proof (cases "case ConnContext (srv w) of None \<Rightarrow> False | Some cc \<Rightarrow> \<not> cc c")
  case True
  from assms(1) have "cap_inv n (Serve_return k Panicked w)"
    by (rule cap_inv_same) (simp_all add: Serve_return_same Serve_return_srv, simp add: Serve_return_def Let_def)
  with True show ?thesis by (simp add: accept_conn_def)
next
  case False
  let ?lp = "(loops w ! k)\<lparr>tasks := tasks (loops w ! k) @ [\<lparr>pc = Spawned, sess = newSession (srv w) c\<rparr>]\<rparr>"
  from assms have "cap_ok n (loops w ! k)" by (simp add: cap_inv_def)
  with assms(3) have "cap_ok n ?lp"
    by (simp add: cap_ok_def holding_append_Spawned newSession_writer)
  with assms(1) have "cap_inv n (w\<lparr>srv := (srv w)\<lparr>waitgrp := waitgrp (srv w) + 1\<rparr>,
      loops := (loops w)[k := ?lp]\<rparr>)"
    by (intro cap_inv_update) simp_all
  with False show ?thesis by (simp add: accept_conn_def Let_def)
qed

lemma getDoneChan_MaxConnections: "MaxConnections (snd (getDoneChan sv)) = MaxConnections sv"
  by (simp add: getDoneChan_def getDoneChanLocked_def split: option.splits)

lemma accept_error_MaxConnections:
  "MaxConnections (srv (accept_error k e temporary pick_ctx cancel_in_wait w))
     = MaxConnections (srv w)"
  by (simp add: accept_error_def Let_def Serve_return_srv getDoneChan_MaxConnections
      split: option.splits)

lemma closeDoneChanLocked_MaxConnections:
  "MaxConnections (closeDoneChanLocked sv) = MaxConnections sv"
  by (simp add: closeDoneChanLocked_def getDoneChanLocked_def Let_def split: option.splits)

lemma Shutdown_MaxConnections:
  "MaxConnections (srv (snd (Shutdown wait w))) = MaxConnections (srv w)"
  by (simp add: Shutdown_def Let_def closeDoneChanLocked_MaxConnections split: outcome.splits)

text \<open>One statement of a goroutine keeps the account of the slots.\<close>

lemma holding_update:
  "i < length (tasks lp) \<Longrightarrow>
   holding (lp\<lparr>limiter_len := m, tasks := (tasks lp)[i := t]\<rparr>)
     + (if pc (tasks lp ! i) = Serving \<or> pc (tasks lp ! i) = Releasing then 1 else 0)
   = holding lp + (if pc t = Serving \<or> pc t = Releasing then 1 else 0)"
  using count_update [of i "tasks lp" "\<lambda>t. pc t = Serving \<or> pc t = Releasing" t]
  by (simp add: holding_def)

lemma task_effect_pc:
  "pc (snd (snd (task_effect bm lp i served))) = Spawned \<Longrightarrow>
   snd (snd (task_effect bm lp i served)) = tasks lp ! i"
  by (simp add: task_effect_def Let_def split: pc.splits option.splits if_split_asm)

lemma task_effect_cap:
  assumes ok: "cap_ok n lp" and i: "i < length (tasks lp)"
  shows "cap_ok n (lp\<lparr>limiter_len := fst (snd (task_effect bm lp i served)),
                      tasks := (tasks lp)[i := snd (snd (task_effect bm lp i served))]\<rparr>)"
proof -
  let ?e = "task_effect bm lp i served"
  let ?lp' = "lp\<lparr>limiter_len := fst (snd ?e), tasks := (tasks lp)[i := snd (snd ?e)]\<rparr>"
  from i have ne: "tasks lp \<noteq> []" by auto
  with ok have ent: "entered lp" and lim: "limiter lp = Some n"
    by (auto simp: cap_ok_def)
  from ok have hold: "holding lp = limiter_len lp" and le: "limiter_len lp \<le> n"
    and fresh: "\<And>t. t \<in> set (tasks lp) \<Longrightarrow> pc t = Spawned \<Longrightarrow> writer (sess t) = NewWriter"
    by (simp_all add: cap_ok_def)
  note upd = holding_update [OF i, where m = "fst (snd ?e)" and t = "snd (snd ?e)"]
  have count: "holding ?lp' = fst (snd ?e) \<and> fst (snd ?e) \<le> n"
  proof (cases "pc (tasks lp ! i)")
    case Spawned
    with upd lim hold le show ?thesis
      by (simp add: task_effect_def Let_def split: if_split_asm)
  next
    case Serving
    with upd lim hold le show ?thesis
      by (simp add: task_effect_def Let_def)
  next
    case Releasing
    from holding_update [OF i, where m = "limiter_len lp" and t = "(tasks lp ! i)\<lparr>pc := Finished\<rparr>"]
      Releasing hold
    have "0 < limiter_len lp" by simp
    with Releasing upd lim hold le show ?thesis
      by (auto simp add: task_effect_def Let_def)
  next
    case Finished
    with upd lim hold le show ?thesis
      by (simp add: task_effect_def Let_def)
  qed
  have spawned: "writer (sess t) = NewWriter"
    if "t \<in> set ((tasks lp)[i := snd (snd ?e)])" and "pc t = Spawned" for t
  proof -
    from that(1) have "t = snd (snd ?e) \<or> t \<in> set (tasks lp)"
      using set_update_subset_insert [of "tasks lp" i "snd (snd ?e)"] by auto
    then show ?thesis
    proof
      assume "t = snd (snd ?e)"
      with that(2) task_effect_pc [of bm lp i served] have "t = tasks lp ! i" by simp
      with i have "t \<in> set (tasks lp)" by simp
      then show ?thesis using that(2) by (rule fresh)
    next
      assume "t \<in> set (tasks lp)"
      then show ?thesis using that(2) by (rule fresh)
    qed
  qed
  from count spawned ent lim show ?thesis
    by (simp add: cap_ok_def)
qed

lemma run_task_cap:
  assumes "cap_inv n w" and "k < length (loops w)" and "i < length (tasks (loops w ! k))"
  shows "cap_inv n (run_task bm k i served w)"
proof -
  from assms have "cap_ok n (loops w ! k)" by (simp add: cap_inv_def)
  from task_effect_cap [OF this assms(3), of bm served] assms(1)
  show ?thesis
    unfolding run_task_eq [OF assms(2)]
    by (intro cap_inv_update) simp_all
qed

lemma step_cap:
  assumes "cap_inv n w" and "0 < n"
  shows "cap_inv n (step bm ev w)"
proof (cases ev)
  case (Ev_Serve closes ctx)
  with Serve_cap [OF assms] show ?thesis by simp
next
  case (Ev_ServeBegin closes ctx)
  with Serve_begin_cap [OF assms] show ?thesis by simp
next
  case (Ev_ServeAssign a)
  with Serve_assign_cap [OF assms] assms show ?thesis by simp
next
  case (Ev_ListenAndServe addr listened ctx)
  with ListenAndServe_cap [OF assms] show ?thesis by simp
next
  case (Ev_Listen addr)
  with assms show ?thesis by (simp add: cap_inv_listen_calls)
next
  case (Ev_Accept k c)
  with accept_conn_cap [OF assms(1)] assms show ?thesis by (simp add: accepting_def)
next
  case (Ev_AcceptError k e temporary pick_ctx cancel_in_wait)
  from assms(1) have "cap_inv n (accept_error k e temporary pick_ctx cancel_in_wait w)"
    by (rule cap_inv_same)
       (simp_all add: accept_error_MaxConnections accept_error_fields accept_error_same)
  with Ev_AcceptError assms show ?thesis by simp
next
  case (Ev_Run k i served)
  with run_task_cap [OF assms(1)] assms show ?thesis by simp
next
  case (Ev_Cancel k ce)
  from assms(1) have "cap_inv n (w\<lparr>loops := (loops w)[k := (loops w ! k)\<lparr>ctx_err := Some ce\<rparr>]\<rparr>)"
    by (rule cap_inv_same) (simp_all add: nth_update_any same_limit_def)
  with Ev_Cancel assms show ?thesis by simp
next
  case (Ev_Shutdown wait)
  from assms(1) have "cap_inv n (snd (Shutdown wait w))"
    by (rule cap_inv_same) (simp_all add: Shutdown_MaxConnections Shutdown_fields Shutdown_same)
  with Ev_Shutdown show ?thesis by simp
next
  case Ev_Wait
  with assms show ?thesis by simp
qed

lemma run_cap: "cap_inv n w \<Longrightarrow> 0 < n \<Longrightarrow> cap_inv n (run bm evs w)"
  by (induction evs arbitrary: w) (simp_all add: step_cap)

lemma new_world_cap: "0 < MaxConnections sv \<Longrightarrow> cap_inv (nat (MaxConnections sv)) (new_world sv)"
  by (simp add: cap_inv_def new_world_def)

lemma serving_le_holding: "serving lp \<le> holding lp"
proof -
  have "length (filter (\<lambda>t. pc t = Serving) ts)
      \<le> length (filter (\<lambda>t. pc t = Serving \<or> pc t = Releasing) ts)" for ts :: "task list"
    by (induction ts) simp_all
  then show ?thesis by (simp add: serving_def holding_def)
qed

text \<open>What \<open>session.reject\<close> does to the connection of a session that has written nothing.\<close>

lemma reject_fresh:
  assumes "writer s = NewWriter"
  shows "closed (conn (reject bm s))"
    and "\<not> closed (conn s) \<Longrightarrow> sent (conn (reject bm s)) = sent (conn s) @ ''421 '' @ bm @ CRLF"
  using assms
  by (simp_all add: reject_def ErrBusy_def session_error_typed fmt_03d_421 close_def
      flush_def Writer_Flush_def Fprintf_def NewWriter_def Conn_Close_def Let_def)

lemma serving_update:
  assumes "i < length (tasks lp)" and "pc (tasks lp ! i) \<noteq> Serving" and "pc t \<noteq> Serving"
  shows "serving (lp\<lparr>limiter_len := m, tasks := (tasks lp)[i := t]\<rparr>) = serving lp"
    and "serving (lp\<lparr>tasks := (tasks lp)[i := t]\<rparr>) = serving lp"
  using assms count_update [of i "tasks lp" "\<lambda>t. pc t = Serving" t]
  by (simp_all add: serving_def)

text \<open>
  C1, as the code has it. The limiter is a local variable of \<open>Serve\<close>: each call has
  its own. On a server with \<open>MaxConnections\<close> = N > 0, in every state that the server
  reaches, every call of \<open>Serve\<close> has at most N of its goroutines inside
  \<open>session.serve\<close>; a call in its accept loop has a limiter of capacity N, which holds
  one element for each of its goroutines that is inside \<open>session.serve\<close> or about to
  give its slot back. So a server on which \<open>Serve\<close> has been called at most once has
  at most N sessions inside \<open>session.serve\<close>. When the goroutine of an accepted connection runs its \<open>select\<close>,
  it takes a slot if the limiter of its call holds fewer than N elements; otherwise
  it does not wait: it runs \<open>session.reject\<close>, which writes the line 421 with the busy
  text to the connection and closes it, and the goroutine ends without ever having
  been inside \<open>session.serve\<close>.
\<close>

theorem C1_connection_limit:
  assumes "0 < MaxConnections sv"
  shows "let w = run bm evs (new_world sv); N = nat (MaxConnections sv) in
       (\<forall>lp\<in>set (loops w).
           serving lp \<le> N \<and> holding lp = limiter_len lp
           \<and> (entered lp \<longrightarrow> limiter lp = Some N))
     \<and> (length (loops w) \<le> 1 \<longrightarrow> sum_list (map serving (loops w)) \<le> N)
     \<and> (k < length (loops w) \<and> i < length (tasks (loops w ! k))
          \<and> pc (tasks (loops w ! k) ! i) = Spawned \<longrightarrow>
          (let lp = loops w ! k; t = tasks lp ! i;
               w' = step bm (Ev_Run k i served) w;
               lp' = loops w' ! k; t' = tasks lp' ! i
           in if limiter_len lp < N
              then pc t' = Serving \<and> sess t' = sess t \<and> limiter_len lp' = limiter_len lp + 1
              else pc t' = Finished \<and> sess t' = reject bm (sess t)
                \<and> closed (conn (sess t'))
                \<and> (\<not> closed (conn (sess t)) \<longrightarrow>
                     sent (conn (sess t')) = sent (conn (sess t)) @ ''421 '' @ bm @ CRLF)
                \<and> limiter_len lp' = limiter_len lp \<and> serving lp' = serving lp))"
proof -
  let ?w = "run bm evs (new_world sv)"
  let ?N = "nat (MaxConnections sv)"
  from assms have pos: "0 < ?N" by simp
  have inv: "cap_inv ?N ?w"
    using new_world_cap [OF assms] pos by (rule run_cap)
  have ok: "cap_ok ?N lp" if "lp \<in> set (loops ?w)" for lp
  proof -
    from that obtain a where "a < length (loops ?w)" and "loops ?w ! a = lp"
      by (auto simp: in_set_conv_nth)
    with inv show ?thesis by (auto simp: cap_inv_def)
  qed
  have bound: "serving lp \<le> ?N \<and> holding lp = limiter_len lp
      \<and> (entered lp \<longrightarrow> limiter lp = Some ?N)" if "lp \<in> set (loops ?w)" for lp
    using ok [OF that] serving_le_holding [of lp] by (simp add: cap_ok_def)
  have select: "let lp = loops ?w ! k; t = tasks lp ! i;
               w' = step bm (Ev_Run k i served) ?w;
               lp' = loops w' ! k; t' = tasks lp' ! i
           in if limiter_len lp < ?N
              then pc t' = Serving \<and> sess t' = sess t \<and> limiter_len lp' = limiter_len lp + 1
              else pc t' = Finished \<and> sess t' = reject bm (sess t)
                \<and> closed (conn (sess t'))
                \<and> (\<not> closed (conn (sess t)) \<longrightarrow>
                     sent (conn (sess t')) = sent (conn (sess t)) @ ''421 '' @ bm @ CRLF)
                \<and> limiter_len lp' = limiter_len lp \<and> serving lp' = serving lp"
    if k: "k < length (loops ?w)" and i: "i < length (tasks (loops ?w ! k))"
      and spawned: "pc (tasks (loops ?w ! k) ! i) = Spawned"
  proof -
    let ?lp = "loops ?w ! k"
    let ?t = "tasks ?lp ! i"
    from k have "?lp \<in> set (loops ?w)" by simp
    then have c: "cap_ok ?N ?lp" by (rule ok)
    from i have "tasks ?lp \<noteq> []" by auto
    with c have lim: "limiter ?lp = Some ?N" by (auto simp: cap_ok_def)
    from i have "?t \<in> set (tasks ?lp)" by simp
    with c spawned have fresh: "writer (sess ?t) = NewWriter" by (simp add: cap_ok_def)
    have st: "step bm (Ev_Run k i served) ?w = run_task bm k i served ?w"
      using k i by simp
    show ?thesis
    proof (cases "limiter_len ?lp < ?N")
      case True
      with spawned lim have "task_effect bm ?lp i served
          = (0, limiter_len ?lp + 1, ?t\<lparr>pc := Serving\<rparr>)"
        by (simp add: task_effect_def Let_def)
      with True k i show ?thesis
        unfolding st run_task_eq [OF k] Let_def by simp
    next
      case False
      with spawned lim have "task_effect bm ?lp i served
          = (1, limiter_len ?lp, \<lparr>pc = Finished, sess = reject bm (sess ?t)\<rparr>)"
        by (simp add: task_effect_def Let_def)
      with False k i spawned reject_fresh [OF fresh, of bm] show ?thesis
        unfolding st run_task_eq [OF k] Let_def by (simp add: serving_update)
    qed
  qed
  have single: "sum_list (map serving (loops ?w)) \<le> ?N" if "length (loops ?w) \<le> 1"
  proof (cases "loops ?w")
    case Nil
    then show ?thesis by simp
  next
    case (Cons lp rest)
    with that have rest: "rest = []" by simp
    from Cons have "lp \<in> set (loops ?w)" by simp
    from bound [OF this] Cons rest show ?thesis by simp
  qed
  from bound single select show ?thesis
    unfolding Let_def by blast
qed

text \<open>
  The claim as stated, a bound for the server, fails when \<open>Serve\<close> is called twice on
  it: with \<open>MaxConnections\<close> = 1, each of the two calls admits one session, and two
  sessions are inside \<open>session.serve\<close> at once.
\<close>

theorem C1_two_serve_calls:
  "let w = run ''Too busy''
             [Ev_Serve (\<lambda>n. None) None, Ev_Serve (\<lambda>n. None) None,
              Ev_Accept 0 (tcp_conn ''192.0.2.7:40000'' []),
              Ev_Accept 1 (tcp_conn ''192.0.2.8:40000'' []),
              Ev_Run 0 0 mail_session, Ev_Run 1 0 mail_session]
             (new_world (test_Server\<lparr>MaxConnections := 1\<rparr>))
   in MaxConnections (srv w) = 1 \<and> map serving (loops w) = [1, 1]
    \<and> sum_list (map serving (loops w)) = 2"
  by (simp add: Serve_def configureDefaults_eq Let_def new_world_def test_Server_def
      shuttingDown_def accepting_def accept_conn_def run_task_def set_task_def
      set_limiter_len_def serving_def)

theorem C1_connection_limit_witness:
  "let w = run ''Too busy''
             [Ev_Serve (\<lambda>n. None) None,
              Ev_Accept 0 (tcp_conn ''192.0.2.7:40000'' []),
              Ev_Accept 0 (tcp_conn ''192.0.2.8:40000'' []),
              Ev_Run 0 0 mail_session]
             (new_world (test_Server\<lparr>MaxConnections := 1\<rparr>));
       w' = step ''Too busy'' (Ev_Run 0 1 mail_session) w
   in 0 < MaxConnections (test_Server\<lparr>MaxConnections := 1\<rparr>)
    \<and> length (loops w) = 1
    \<and> map pc (tasks (loops w ! 0)) = [Serving, Spawned]
    \<and> limiter_len (loops w ! 0) = 1
    \<and> serving (loops w ! 0) \<le> 1
    \<and> sum_list (map serving (loops w)) \<le> 1
    \<and> limiter (loops w ! 0) = Some 1
    \<and> pc (tasks (loops w' ! 0) ! 1) = Finished
    \<and> closed (conn (sess (tasks (loops w' ! 0) ! 1)))
    \<and> sent (conn (sess (tasks (loops w' ! 0) ! 1))) = ''421 Too busy'' @ CRLF
    \<and> serving (loops w' ! 0) = serving (loops w ! 0)"
proof -
  define w where "w = run ''Too busy''
             [Ev_Serve (\<lambda>n. None) None,
              Ev_Accept 0 (tcp_conn ''192.0.2.7:40000'' []),
              Ev_Accept 0 (tcp_conn ''192.0.2.8:40000'' []),
              Ev_Run 0 0 mail_session]
             (new_world (test_Server\<lparr>MaxConnections := 1\<rparr>))"
  have pos: "0 < MaxConnections (test_Server\<lparr>MaxConnections := 1\<rparr>)" by simp
  have n: "nat (MaxConnections (test_Server\<lparr>MaxConnections := 1\<rparr>)) = 1" by simp
  have shape: "length (loops w) = 1" "map pc (tasks (loops w ! 0)) = [Serving, Spawned]"
    "limiter_len (loops w ! 0) = 1" "entered (loops w ! 0)"
    "\<not> closed (conn (sess (tasks (loops w ! 0) ! 1)))"
    "sent (conn (sess (tasks (loops w ! 0) ! 1))) = []"
    unfolding w_def
    by (simp_all add: Serve_def configureDefaults_eq Let_def new_world_def test_Server_def
        shuttingDown_def accepting_def accept_conn_def run_task_def set_task_def
        set_limiter_len_def newSession_def tcp_conn_def)
  from shape(2) have tasks: "length (tasks (loops w ! 0)) = 2"
    "pc (tasks (loops w ! 0) ! 1) = Spawned"
    by (auto simp: map_eq_Cons_conv)
  from shape(1) have mem: "loops w ! 0 \<in> set (loops w)" by simp
  from C1_connection_limit [OF pos, of "''Too busy''"
      "[Ev_Serve (\<lambda>n. None) None,
        Ev_Accept 0 (tcp_conn ''192.0.2.7:40000'' []),
        Ev_Accept 0 (tcp_conn ''192.0.2.8:40000'' []),
        Ev_Run 0 0 mail_session]" 0 1 mail_session]
  have "(\<forall>lp\<in>set (loops w).
           serving lp \<le> 1 \<and> holding lp = limiter_len lp
           \<and> (entered lp \<longrightarrow> limiter lp = Some 1))
     \<and> sum_list (map serving (loops w)) \<le> 1
     \<and> (let w' = step ''Too busy'' (Ev_Run 0 1 mail_session) w
        in pc (tasks (loops w' ! 0) ! 1) = Finished
         \<and> closed (conn (sess (tasks (loops w' ! 0) ! 1)))
         \<and> sent (conn (sess (tasks (loops w' ! 0) ! 1))) = ''421 Too busy'' @ CRLF
         \<and> serving (loops w' ! 0) = serving (loops w ! 0))"
    unfolding n w_def [symmetric] Let_def
    using shape tasks by (auto simp del: run.simps step.simps)
  with mem shape pos show ?thesis
    unfolding w_def [symmetric] Let_def by (auto simp del: run.simps step.simps)
qed


end
